theory Spec2Isabelle
  imports Main "HOL-Library.Word" "HOL-Library.Sublist"
begin

section \<open>Data model of package tsnet\<close>

text \<open>
  Go errors. \<open>errors.New\<close> and \<open>fmt.Errorf\<close> without \<open>%w\<close> give \<open>Error\<close> with the
  message; \<open>fmt.Errorf("prefix: %w", err)\<close> gives \<open>Wrap\<close> of the prefix and the wrapped
  error. A nil error is \<open>None\<close> of \<open>error option\<close>.
\<close>

datatype error = Error string | Wrap string error

text \<open>\<open>err.Error()\<close>, as \<open>%v\<close> prints an error.\<close>

fun errorString :: "error \<Rightarrow> string" where
  "errorString (Error m) = m"
| "errorString (Wrap msg e) = msg @ errorString e"

text \<open>
  What a call does: it returns a value, it panics, or it blocks forever (a receive on a
  channel nobody sends on, a read of a subscription that stays silent).
\<close>

datatype 'a outcome = Returns 'a | Panics | Blocks

text \<open>
  \<open>netip.Addr\<close>: the zero value (no address), an IPv4 address, or an IPv6 address with
  its zone. Two values are equal when they are the same kind with the same bits and zone,
  as Go's \<open>==\<close> on the struct.
\<close>

datatype Addr = AddrZero | Addr4 "32 word" | Addr6 "128 word" string

fun Is4 :: "Addr \<Rightarrow> bool" where
  "Is4 (Addr4 _) = True"
| "Is4 _ = False"

fun Is6 :: "Addr \<Rightarrow> bool" where
  "Is6 (Addr6 _ _) = True"
| "Is6 _ = False"

datatype AddrPort = AddrPort (ap_addr: Addr) (ap_port: "16 word")

record listenKey =
  network :: string
  host :: Addr
  port :: "16 word"

text \<open>
  A \<open>*listener\<close> is a pointer; pointers are natural numbers into \<open>heap\<close>. The field
  \<open>conn\<close>, an unbuffered channel, is kept by what the code observes of it here: whether
  it has been closed. The back pointer \<open>s\<close> is left out: there is one Server.
\<close>

record listener =
  key :: listenKey
  addr :: string
  conn_closed :: bool

datatype store = MemStore | OtherStore

text \<open>A \<open>net.Listener\<close> as Loopback uses it: what its \<open>Addr()\<close> returns (nil is None).\<close>

record netListener =
  lnAddr :: "string option"

text \<open>
  The Server struct. A handle to a collaborator (\<open>lb\<close>, \<open>netstack\<close>, ...) is kept as
  a flag: True when the field is non-nil. \<open>initOnce\<close> is the done flag of the
  \<open>sync.Once\<close>. \<open>heap\<close> holds the listener objects allocated so far and \<open>nextp\<close> is
  the next fresh pointer.
\<close>

record Server =
  Dir :: string
  Store :: "store option"
  Hostname :: string
  Ephemeral :: bool
  AuthKey :: string
  ControlURL :: string
  initOnce :: bool
  initErr :: "error option"
  lb :: bool
  netstack :: bool
  linkMon :: bool
  rootPath :: string
  hostname :: string
  shutdownCtx :: bool
  proxyCred :: string
  localAPICred :: string
  loopbackListener :: "netListener option"
  localAPIListener :: bool
  localClient :: bool
  logbuffer :: bool
  logtail :: bool
  logid :: string
  listeners :: "listenKey \<rightharpoonup> nat"
  dialer :: bool
  heap :: "nat \<rightharpoonup> listener"
  nextp :: nat

text \<open>The zero Server with the caller's exported fields set.\<close>

definition newServer :: "string \<Rightarrow> store option \<Rightarrow> string \<Rightarrow> bool \<Rightarrow> string \<Rightarrow> string \<Rightarrow> Server" where
  "newServer d st hn eph ak cu =
     \<lparr>Dir = d, Store = st, Hostname = hn, Ephemeral = eph, AuthKey = ak, ControlURL = cu,
      initOnce = False, initErr = None, lb = False, netstack = False, linkMon = False,
      rootPath = [], hostname = [], shutdownCtx = False, proxyCred = [], localAPICred = [],
      loopbackListener = None, localAPIListener = False, localClient = False,
      logbuffer = False, logtail = False, logid = [], listeners = Map.empty,
      dialer = False, heap = Map.empty, nextp = 0\<rparr>"

section \<open>Flow resolution\<close>

text \<open>\<open>networkForFamily\<close>; None is the panic of its last line.\<close>

definition networkForFamily :: "string \<Rightarrow> bool \<Rightarrow> string option" where
  "networkForFamily netBase is6 =
     (if netBase = ''tcp'' then (if is6 then Some ''tcp6'' else Some ''tcp4'')
      else if netBase = ''udp'' then (if is6 then Some ''udp6'' else Some ''udp4'')
      else None)"

text \<open>
  The two nested \<open>for\<close> loops of \<open>listenerForDstAddr\<close>: the inner one over the networks
  for one address, the outer one over the addresses. Each returns at the first key found
  in the map.
\<close>

fun probeNets :: "(listenKey \<rightharpoonup> nat) \<Rightarrow> Addr \<Rightarrow> 16 word \<Rightarrow> string list \<Rightarrow> nat option" where
  "probeNets m a p [] = None"
| "probeNets m a p (n # ns) =
     (case m \<lparr>network = n, host = a, port = p\<rparr> of
        Some ln \<Rightarrow> Some ln
      | None \<Rightarrow> probeNets m a p ns)"

fun probeAddrs :: "(listenKey \<rightharpoonup> nat) \<Rightarrow> string list \<Rightarrow> 16 word \<Rightarrow> Addr list \<Rightarrow> nat option" where
  "probeAddrs m ns p [] = None"
| "probeAddrs m ns p (a # as) =
     (case probeNets m a p ns of
        Some ln \<Rightarrow> Some ln
      | None \<Rightarrow> probeAddrs m ns p as)"

text \<open>
  \<open>listenerForDstAddr\<close>. The array \<open>[2]netip.Addr{0: dst.Addr()}\<close> is the destination
  address followed by the zero Addr. The pair returned is Go's \<open>(ln, ok)\<close>; the
  mutex is held for the whole body, so the lookups read one map.
\<close>

definition listenerForDstAddr :: "Server \<Rightarrow> string \<Rightarrow> AddrPort \<Rightarrow> (nat option \<times> bool) outcome" where
  "listenerForDstAddr s netBase dst =
     (case networkForFamily netBase (Is6 (ap_addr dst)) of
        None \<Rightarrow> Panics
      | Some fam \<Rightarrow>
          (case probeAddrs (listeners s) [fam, netBase] (ap_port dst) [ap_addr dst, AddrZero] of
             Some ln \<Rightarrow> Returns (Some ln, True)
           | None \<Rightarrow> Returns (None, False)))"

text \<open>
  The handlers handed to netstack: \<open>ln.handle\<close> bound to a listener, and for UDP the
  closure that calls it.
\<close>

datatype handler = TCPHandle nat | UDPHandle nat

definition getTCPHandlerForFlow :: "Server \<Rightarrow> AddrPort \<Rightarrow> AddrPort \<Rightarrow> (handler option \<times> bool) outcome" where
  "getTCPHandlerForFlow s src dst =
     (case listenerForDstAddr s ''tcp'' dst of
        Returns (ln, ok) \<Rightarrow>
          if \<not> ok then Returns (None, True)
          else Returns (map_option TCPHandle ln, True)
      | Panics \<Rightarrow> Panics
      | Blocks \<Rightarrow> Blocks)"

definition getUDPHandlerForFlow :: "Server \<Rightarrow> AddrPort \<Rightarrow> AddrPort \<Rightarrow> (handler option \<times> bool) outcome" where
  "getUDPHandlerForFlow s src dst =
     (case listenerForDstAddr s ''udp'' dst of
        Returns (ln, ok) \<Rightarrow>
          if \<not> ok then Returns (None, True)
          else Returns (map_option UDPHandle ln, True)
      | Panics \<Rightarrow> Panics
      | Blocks \<Rightarrow> Blocks)"

section \<open>Initialization\<close>

text \<open>
  The release actions a \<open>closeOnErrorPool\<close> holds: \<open>add\<close> appends the Close of a
  handle, \<open>addFunc\<close> appends a function. The pool is the slice in the order of the appends.
\<close>

datatype closer =
    CloseLogbuffer | ShutdownLogtail | CloseLinkMon | CloseDialer | ShutdownLB
  | CloseLocalAPIListener

definition add :: "closer list \<Rightarrow> closer \<Rightarrow> closer list" where
  "add p c = p @ [c]"

definition addFunc :: "closer list \<Rightarrow> closer \<Rightarrow> closer list" where
  "addFunc p fn = p @ [fn]"

text \<open>
  \<open>closeAllIfError\<close>: the \<open>range\<close> loop calls each closeFn of the pool; the result is
  the sequence of calls made, first call first.
\<close>

fun rangeCalls :: "closer list \<Rightarrow> closer list \<Rightarrow> closer list" where
  "rangeCalls [] called = called"
| "rangeCalls (closeFn # p) called = rangeCalls p (called @ [closeFn])"

definition closeAllIfError :: "closer list \<Rightarrow> error option \<Rightarrow> closer list" where
  "closeAllIfError p errp = (if errp \<noteq> None then rangeCalls p [] else [])"

text \<open>
  What the operating system and the collaborators answer to the calls of \<open>start\<close>, one
  field per fallible call, in the order of the calls. \<open>osExecutable\<close> holds the program
  name the code derives from the executable's path (base name, lower case, without
  \<open>.exe\<close>).
\<close>

datatype lstat = LstatNotExist | LstatErr error | LstatIsDir bool

datatype confFile = ConfNotExist | ConfErr error | ConfLoaded

record startEnv =
  osExecutable :: "error + string"
  userConfigDir :: "error + string"
  lstatOld :: lstat
  lstatNew :: lstat
  osRename :: "error option"
  mkdirAll :: "error option"
  statRoot :: "error + bool"
  configFromFile :: confFile
  configSave :: "error option"
  configValidate :: "error option"
  publicID :: string
  filchNew :: "error option"
  monitorNew :: "error option"
  newUserspaceEngine :: "error option"
  getInternals :: bool
  netstackCreate :: "error option"
  storeNew :: "error option"
  newLocalBackend :: "error option"
  nsStart :: "error option"
  lbStart :: "error option"

definition pathJoin :: "string \<Rightarrow> string \<Rightarrow> string" where
  "pathJoin a b = a @ ''/'' @ b"

text \<open>\<open>getTSNetDir\<close>, with the two \<open>os.Lstat\<close> answers and the rename's.\<close>

definition getTSNetDir :: "startEnv \<Rightarrow> string \<Rightarrow> string \<Rightarrow> error + string" where
  "getTSNetDir env confDir prog =
     (let oldPath = pathJoin confDir (''tslib-'' @ prog);
          newPath = pathJoin confDir (''tsnet-'' @ prog)
      in case lstatOld env of
           LstatNotExist \<Rightarrow> Inr newPath
         | LstatErr e \<Rightarrow> Inl e
         | LstatIsDir d \<Rightarrow>
             if \<not> d then Inl (Error (''expected old tslib path to be a directory: '' @ oldPath))
             else (case lstatNew env of
                     LstatIsDir True \<Rightarrow> Inr newPath
                   | LstatErr e \<Rightarrow> Inl e
                   | _ \<Rightarrow> (case osRename env of Some e \<Rightarrow> Inl e | None \<Rightarrow> Inr newPath)))"

text \<open>
  The body of \<open>start\<close> is cut into consecutive pieces. Each takes the pool and the Server
  as they are when it begins and gives \<open>(reterr, pool, Server)\<close> as they are when it
  returns or falls through to the next piece; \<open>andThen\<close> runs the next piece only when
  no \<open>return err\<close> was taken.
\<close>

type_synonym startResult = "error option \<times> closer list \<times> Server"

definition andThen :: "startResult \<Rightarrow> (closer list \<Rightarrow> Server \<Rightarrow> startResult) \<Rightarrow> startResult" where
  "andThen r f = (case r of (Some e, p, s) \<Rightarrow> (Some e, p, s) | (None, p, s) \<Rightarrow> f p s)"

text \<open>
  From \<open>os.Executable\<close> to the \<open>os.Stat\<close> of the root path; \<open>startRootPath\<close> is
  the block under \<open>if s.rootPath == ""\<close>.
\<close>

definition startRootPath :: "startEnv \<Rightarrow> string \<Rightarrow> closer list \<Rightarrow> Server \<Rightarrow> startResult" where
  "startRootPath env prog p s =
     (if rootPath s = [] then
        (case userConfigDir env of
           Inl e \<Rightarrow> (Some e, p, s)
         | Inr confDir \<Rightarrow>
             (case getTSNetDir env confDir prog of
                Inl e \<Rightarrow> (Some e, p, s\<lparr>rootPath := []\<rparr>)
              | Inr dir \<Rightarrow>
                  (case mkdirAll env of
                     Some e \<Rightarrow> (Some e, p, s\<lparr>rootPath := dir\<rparr>)
                   | None \<Rightarrow> (None, p, s\<lparr>rootPath := dir\<rparr>))))
      else (None, p, s))"

definition startDir :: "startEnv \<Rightarrow> closer list \<Rightarrow> Server \<Rightarrow> startResult" where
  "startDir env p s =
     (case osExecutable env of
        Inl e \<Rightarrow> (Some e, p, s)
      | Inr prog \<Rightarrow>
          (let s1 = s\<lparr>hostname := (if Hostname s = [] then prog else Hostname s)\<rparr>;
               s2 = s1\<lparr>rootPath := Dir s1\<rparr>
           in if Store s2 = Some MemStore \<and> \<not> Ephemeral s2
              then (Some (Error ''in-memory store is only supported for Ephemeral nodes''), p, s2)
              else andThen (startRootPath env prog p s2) (\<lambda>p s3.
                     (case statRoot env of
                        Inl e \<Rightarrow> (Some e, p, s3)
                      | Inr isDir \<Rightarrow>
                          if \<not> isDir then (Some (Error (rootPath s3 @ '' is not a directory'')), p, s3)
                          else (None, p, s3)))))"

text \<open>The log policy file: load or create, validate.\<close>

definition startLogConf :: "startEnv \<Rightarrow> closer list \<Rightarrow> Server \<Rightarrow> startResult" where
  "startLogConf env p s =
     (let cfgPath = pathJoin (rootPath s) ''tailscaled.log.conf'';
          loaded = (case configFromFile env of
                      ConfNotExist \<Rightarrow>
                        (case configSave env of
                           Some e \<Rightarrow> Some (Wrap (''logpolicy.Config.Save for '' @ cfgPath @ '': '') e)
                         | None \<Rightarrow> None)
                    | ConfErr e \<Rightarrow> Some (Wrap (''logpolicy.LoadConfig for '' @ cfgPath @ '': '') e)
                    | ConfLoaded \<Rightarrow> None)
      in case loaded of
           Some e \<Rightarrow> (Some e, p, s)
         | None \<Rightarrow>
             (case configValidate env of
                Some e \<Rightarrow> (Some (Wrap (''logpolicy.Config.Validate for '' @ cfgPath @ '': '') e), p, s)
              | None \<Rightarrow> (None, p, s\<lparr>logid := publicID env\<rparr>)))"

text \<open>The log spool and the log shipper, then the link monitor.\<close>

definition startLog :: "startEnv \<Rightarrow> closer list \<Rightarrow> Server \<Rightarrow> startResult" where
  "startLog env p s =
     (case filchNew env of
        Some e \<Rightarrow> (Some (Wrap ''error creating filch: '' e), p, s)
      | None \<Rightarrow>
          (let s1 = s\<lparr>logbuffer := True\<rparr>;
               p1 = add p CloseLogbuffer;
               s2 = s1\<lparr>logtail := True\<rparr>;
               p2 = addFunc p1 ShutdownLogtail
           in (None, p2, s2)))"

definition startLinkMon :: "startEnv \<Rightarrow> closer list \<Rightarrow> Server \<Rightarrow> startResult" where
  "startLinkMon env p s =
     (case monitorNew env of
        Some e \<Rightarrow> (Some e, p, s)
      | None \<Rightarrow> (None, add p CloseLinkMon, s\<lparr>linkMon := True\<rparr>))"

text \<open>The dialer and the engine, then netstack on top of the engine.\<close>

definition startEngine :: "startEnv \<Rightarrow> closer list \<Rightarrow> Server \<Rightarrow> startResult" where
  "startEngine env p s =
     (let s1 = s\<lparr>dialer := True\<rparr>
      in case newUserspaceEngine env of
           Some e \<Rightarrow> (Some e, p, s1)
         | None \<Rightarrow>
             (let p1 = add p CloseDialer
              in if \<not> getInternals env
                 then (Some (Error ''engine is not a wgengine.InternalsGetter''), p1, s1)
                 else (None, p1, s1)))"

definition startNetstack :: "startEnv \<Rightarrow> closer list \<Rightarrow> Server \<Rightarrow> startResult" where
  "startNetstack env p s =
     (case netstackCreate env of
        Some e \<Rightarrow> (Some (Wrap ''netstack.Create: '' e), p, s)
      | None \<Rightarrow> (None, p, s\<lparr>netstack := True\<rparr>))"

text \<open>The state store, when the caller gave none.\<close>

definition startStore :: "startEnv \<Rightarrow> closer list \<Rightarrow> Server \<Rightarrow> startResult" where
  "startStore env p s =
     (if Store s = None then
        (case storeNew env of
           Some e \<Rightarrow> (Some e, p, s)
         | None \<Rightarrow> (None, p, s\<lparr>Store := Some OtherStore\<rparr>))
      else (None, p, s))"

text \<open>The local backend: construct it, start netstack against it, start it.\<close>

definition startBackend :: "startEnv \<Rightarrow> closer list \<Rightarrow> Server \<Rightarrow> startResult" where
  "startBackend env p s =
     (case newLocalBackend env of
        Some e \<Rightarrow> (Some (Error (''NewLocalBackend: '' @ errorString e)), p, s)
      | None \<Rightarrow>
          (let s1 = s\<lparr>lb := True\<rparr>
           in case nsStart env of
                Some e \<Rightarrow> (Some (Wrap ''failed to start netstack: '' e), p, s1)
              | None \<Rightarrow>
                  (let p1 = addFunc p ShutdownLB
                   in case lbStart env of
                        Some e \<Rightarrow> (Some (Wrap ''starting backend: '' e), p1, s1)
                      | None \<Rightarrow> (None, p1, s1))))"

text \<open>The in-memory LocalAPI listener and its client; the last statement is \<open>return nil\<close>.\<close>

definition startLocalAPI :: "startEnv \<Rightarrow> closer list \<Rightarrow> Server \<Rightarrow> startResult" where
  "startLocalAPI env p s =
     (let s1 = s\<lparr>localAPIListener := True\<rparr>;
          s2 = s1\<lparr>localClient := True\<rparr>
      in (None, add p CloseLocalAPIListener, s2))"

text \<open>
  The body of \<open>start\<close> up to its \<open>return\<close>: the pool starts empty.
\<close>

definition startBody :: "startEnv \<Rightarrow> Server \<Rightarrow> startResult" where
  "startBody env s =
     andThen (startDir env [] s) (\<lambda>p s.
     andThen (startLogConf env p s) (\<lambda>p s.
     andThen (startLog env p s) (\<lambda>p s.
     andThen (startLinkMon env p s) (\<lambda>p s.
     andThen (startEngine env p s) (\<lambda>p s.
     andThen (startNetstack env p s) (\<lambda>p s.
     andThen (startStore env p s) (\<lambda>p s.
     andThen (startBackend env p s) (\<lambda>p s.
     startLocalAPI env p s))))))))"

text \<open>
  \<open>start\<close>. Its first two statements are \<open>var closePool closeOnErrorPool\<close> and
  \<open>defer closePool.closeAllIfError(&reterr)\<close>. The method \<open>closeAllIfError\<close> has a
  value receiver, and Go evaluates the receiver of a deferred call when the \<open>defer\<close>
  statement executes: the deferred call holds the pool as it is then, the empty slice, and
  the elements that \<open>add\<close> and \<open>addFunc\<close> append later (through their pointer
  receivers) are not in it. \<open>reterr\<close> is passed by pointer and is read at return.
  The result is the error returned, the release actions called (in the order of the
  calls) and the Server.
\<close>

definition start :: "startEnv \<Rightarrow> Server \<Rightarrow> error option \<times> closer list \<times> Server" where
  "start env s =
     (let deferredPool = []
      in case startBody env s of
           (reterr, closePool, s') \<Rightarrow> (reterr, closeAllIfError deferredPool reterr, s'))"

definition doInit :: "startEnv \<Rightarrow> Server \<Rightarrow> closer list \<times> Server" where
  "doInit env s =
     (let s0 = s\<lparr>shutdownCtx := True\<rparr>
      in case start env s0 of
           (Some err, called, s1) \<Rightarrow> (called, s1\<lparr>initErr := Some (Wrap ''tsnet: '' err)\<rparr>)
         | (None, called, s1) \<Rightarrow> (called, s1))"

text \<open>
  \<open>Start\<close>. \<open>initOnce.Do(s.doInit)\<close> calls \<open>doInit\<close> when the Once is not done and
  marks it done; a caller that arrives while another runs \<open>doInit\<close> waits inside
  \<open>Do\<close> for it to finish, so calls to Start take place one after the other. The result is
  what Start returns, the release actions it called, and the Server.
  \<open>hostinfo.SetPackage("tsnet")\<close> writes the same value to a variable outside the Server
  at every call and is left out.
\<close>

definition Start :: "startEnv \<Rightarrow> Server \<Rightarrow> error option \<times> closer list \<times> Server" where
  "Start env s =
     (if initOnce s then (initErr s, [], s)
      else (case doInit env s of
              (called, s1) \<Rightarrow> (initErr s1, called, s1\<lparr>initOnce := True\<rparr>)))"

section \<open>Listeners\<close>

text \<open>
  The functions of Go's library that \<open>Listen\<close> calls to read its arguments. They are
  parameters of the model: every result below holds for whatever they compute.
\<close>

record netlib =
  SplitHostPort :: "string \<Rightarrow> error + (string \<times> string)"
  LookupPort :: "string \<Rightarrow> string \<Rightarrow> error + int"
  ParseAddr :: "string \<Rightarrow> error + Addr"

definition HasSuffix :: "string \<Rightarrow> string \<Rightarrow> bool" where
  "HasSuffix s sfx = (length sfx \<le> length s \<and> drop (length s - length sfx) s = sfx)"

text \<open>The \<open>if host != ""\<close> block of \<open>Listen\<close>: the bind address, or the zero Addr.\<close>

definition bindHost :: "netlib \<Rightarrow> string \<Rightarrow> string \<Rightarrow> error + Addr" where
  "bindHost lib nw h =
     (if h \<noteq> [] then
        (case ParseAddr lib h of
           Inl e \<Rightarrow> Inl (Error (''invalid Listen addr '' @ h @ ''; host part must be empty or IP literal''))
         | Inr a \<Rightarrow>
             if HasSuffix nw ''4'' \<and> \<not> Is4 a
             then Inl (Error (''invalid non-IPv4 addr '' @ h @ '' for network '' @ nw))
             else if HasSuffix nw ''6'' \<and> \<not> Is6 a
             then Inl (Error (''invalid non-IPv6 addr '' @ h @ '' for network '' @ nw))
             else Inr a)
      else Inr AddrZero)"

text \<open>
  The end of \<open>Listen\<close>, from the construction of the key: the listener object is
  allocated first, then the map is read and written under the mutex.
\<close>

definition register :: "Server \<Rightarrow> string \<Rightarrow> string \<Rightarrow> Addr \<Rightarrow> int \<Rightarrow> (error + nat) \<times> Server" where
  "register s nw a bindHostOrZero prt =
     (let k = \<lparr>network = nw, host = bindHostOrZero, port = word_of_int prt\<rparr>;
          ln = nextp s;
          s1 = s\<lparr>heap := (heap s)(ln \<mapsto> \<lparr>key = k, addr = a, conn_closed = False\<rparr>),
                 nextp := Suc ln\<rparr>
      in case listeners s1 k of
           Some _ \<Rightarrow> (Inl (Error (''tsnet: listener already open for '' @ nw @ '', '' @ a)), s1)
         | None \<Rightarrow> (Inr ln, s1\<lparr>listeners := (listeners s1)(k \<mapsto> ln)\<rparr>))"

definition supportedNetworks :: "string list" where
  "supportedNetworks = [[], ''tcp'', ''tcp4'', ''tcp6'', ''udp'', ''udp4'', ''udp6'']"

definition Listen :: "netlib \<Rightarrow> startEnv \<Rightarrow> Server \<Rightarrow> string \<Rightarrow> string \<Rightarrow> (error + nat) \<times> Server" where
  "Listen lib env s nw a =
     (if nw \<notin> set supportedNetworks
      then (Inl (Error ''unsupported network type''), s)
      else case SplitHostPort lib a of
        Inl e \<Rightarrow> (Inl (Wrap ''tsnet: '' e), s)
      | Inr (h, portStr) \<Rightarrow>
          (case LookupPort lib nw portStr of
             Inl e \<Rightarrow> (Inl (Wrap ''invalid port: '' e), s)
           | Inr prt \<Rightarrow>
               if prt < 0 \<or> prt > 65535 then (Inl (Error ''invalid port: %!w(<nil>)''), s)
               else (case bindHost lib nw h of
                       Inl e \<Rightarrow> (Inl e, s)
                     | Inr bindHostOrZero \<Rightarrow>
                         (case Start env s of
                            (Some e, called, s1) \<Rightarrow> (Inl e, s1)
                          | (None, called, s1) \<Rightarrow> register s1 nw a bindHostOrZero prt))))"

text \<open>
  \<open>listener.Close\<close> on the listener at pointer \<open>ln\<close>, one critical section under the
  Server's mutex. A nil receiver panics, and so does \<open>close\<close> of a channel that is
  closed already.
\<close>

definition lnClose :: "Server \<Rightarrow> nat \<Rightarrow> (error option \<times> Server) outcome" where
  "lnClose s ln =
     (case heap s ln of
        None \<Rightarrow> Panics
      | Some l \<Rightarrow>
          (case listeners s (key l) of
             Some v \<Rightarrow>
               if v = ln then
                 (if conn_closed l then Panics
                  else Returns (None,
                         s\<lparr>listeners := (listeners s)(key l := None),
                           heap := (heap s)(ln \<mapsto> l\<lparr>conn_closed := True\<rparr>)\<rparr>))
               else Returns (None, s)
           | None \<Rightarrow> Returns (None, s)))"

text \<open>
  \<open>listener.Accept\<close>: the receive gives \<open>ok = false\<close> at once on a closed channel;
  on an open one it takes the connection a sender offers, and blocks while there is none.
\<close>

definition Accept :: "Server \<Rightarrow> nat \<Rightarrow> nat option \<Rightarrow> (error + nat) outcome" where
  "Accept s ln offered =
     (case heap s ln of
        None \<Rightarrow> Panics
      | Some l \<Rightarrow>
          if conn_closed l
          then Returns (Inl (Wrap ''tsnet: '' (Error ''use of closed network connection'')))
          else (case offered of Some c \<Rightarrow> Returns (Inr c) | None \<Rightarrow> Blocks))"





section \<open>Up\<close>

datatype ipnState =
  NoState | InUseOtherUser | NeedsLogin | NeedsMachineAuth | Stopped | Starting | Running

record Notify =
  ErrMessage :: "string option"
  State :: "ipnState option"

record Status =
  TailscaleIPs :: "Addr list"

text \<open>
  What the local client answers to \<open>Up\<close>: the result of \<open>WatchIPNBus\<close>, the results of
  the successive \<open>watcher.Next()\<close> calls (an error when the context is cancelled or the
  subscription breaks; after the last one \<open>Next\<close> blocks), and the result of
  \<open>lc.Status\<close>.
\<close>

record upEnv =
  watchIPNBus :: "error option"
  notifications :: "(error + Notify) list"
  lcStatus :: "error + Status"

text \<open>The \<open>for\<close> loop of \<open>Up\<close>, one equation per result of \<open>watcher.Next()\<close>.\<close>

fun watchLoop :: "(error + Status) \<Rightarrow> (error + Notify) list \<Rightarrow> (error + Status) outcome" where
  "watchLoop st [] = Blocks"
| "watchLoop st (Inl err # ns) = Returns (Inl (Wrap ''tsnet.Up: '' err))"
| "watchLoop st (Inr n # ns) =
     (case ErrMessage n of
        Some m \<Rightarrow> Returns (Inl (Error (''tsnet.Up: backend: '' @ m)))
      | None \<Rightarrow>
          if State n = Some Running then
            (case st of
               Inl err \<Rightarrow> Returns (Inl (Wrap ''tsnet.Up: '' err))
             | Inr status \<Rightarrow>
                 if length (TailscaleIPs status) = 0
                 then Returns (Inl (Error ''tsnet.Up: running, but no ip''))
                 else Returns (Inr status))
          else watchLoop st ns)"

definition Up :: "startEnv \<Rightarrow> upEnv \<Rightarrow> Server \<Rightarrow> (error + Status) outcome \<times> Server" where
  "Up senv env s =
     (case Start senv s of
        (Some err, called, s1) \<Rightarrow> (Returns (Inl (Wrap ''tsnet.Up: '' err)), s1)
      | (None, called, s1) \<Rightarrow>
          (case watchIPNBus env of
             Some err \<Rightarrow> (Returns (Inl (Wrap ''tsnet.Up: '' err)), s1)
           | None \<Rightarrow> (watchLoop (lcStatus env) (notifications env), s1)))"

text \<open>
  A result of \<open>Next\<close> after which the loop goes round again: a notification without
  error message whose state is absent or not Running.
\<close>

fun pending :: "error + Notify \<Rightarrow> bool" where
  "pending (Inl err) = False"
| "pending (Inr n) = (ErrMessage n = None \<and> State n \<noteq> Some Running)"

section \<open>Loopback\<close>

text \<open>\<open>hex.EncodeToString\<close>: two lower-case hexadecimal digits per byte, high nibble first.\<close>

definition hextable :: string where
  "hextable = ''0123456789abcdef''"

definition EncodeToString :: "8 word list \<Rightarrow> string" where
  "EncodeToString src =
     concat (map (\<lambda>v. [hextable ! (unat v div 16), hextable ! (unat v mod 16)]) src)"

text \<open>
  A \<open>[16]byte\<close> array, zero at first, after \<open>crand.Read\<close> has written the bytes it
  read over it.
\<close>

definition array16 :: "8 word list \<Rightarrow> 8 word list" where
  "array16 bs = take 16 (bs @ replicate 16 0)"

record loopbackEnv =
  crandRead1 :: "error + 8 word list"
  crandRead2 :: "error + 8 word list"
  netListen :: "error + netListener"

text \<open>What Loopback does outside the Server, in the order it does it.\<close>

datatype loopbackEffect = CrandRead | NetListen | GoServeLocalAPI | GoServeSOCKS5

text \<open>The block under \<open>if s.loopbackListener == nil\<close>.\<close>

definition openLoopback :: "loopbackEnv \<Rightarrow> Server \<Rightarrow> error option \<times> loopbackEffect list \<times> Server" where
  "openLoopback env s =
     (case crandRead1 env of
        Inl err \<Rightarrow> (Some err, [CrandRead], s)
      | Inr b1 \<Rightarrow>
          (let s1 = s\<lparr>proxyCred := EncodeToString (array16 b1)\<rparr>
           in case crandRead2 env of
                Inl err \<Rightarrow> (Some err, [CrandRead, CrandRead], s1)
              | Inr b2 \<Rightarrow>
                  (let s2 = s1\<lparr>localAPICred := EncodeToString (array16 b2)\<rparr>
                   in case netListen env of
                        Inl err \<Rightarrow> (Some err, [CrandRead, CrandRead, NetListen], s2)
                      | Inr ln \<Rightarrow>
                          (None, [CrandRead, CrandRead, NetListen, GoServeLocalAPI, GoServeSOCKS5],
                           s2\<lparr>loopbackListener := Some ln\<rparr>))))"

definition Loopback ::
  "startEnv \<Rightarrow> loopbackEnv \<Rightarrow> Server \<Rightarrow>
     (error + (string \<times> string \<times> string)) outcome \<times> loopbackEffect list \<times> Server" where
  "Loopback senv env s =
     (case Start senv s of
        (Some err, called, s0) \<Rightarrow> (Returns (Inl err), [], s0)
      | (None, called, s0) \<Rightarrow>
          (case (if loopbackListener s0 = None then openLoopback env s0 else (None, [], s0)) of
             (Some err, effs, s1) \<Rightarrow> (Returns (Inl err), effs, s1)
           | (None, effs, s1) \<Rightarrow>
               (case loopbackListener s1 of
                  None \<Rightarrow> (Panics, effs, s1)
                | Some ln \<Rightarrow>
                    (case lnAddr ln of
                       None \<Rightarrow> (Panics, effs, s1)
                     | Some lbAddr \<Rightarrow>
                         (Returns (Inr (lbAddr, proxyCred s1, localAPICred s1)), effs, s1)))))"

section \<open>Programs using a Server\<close>

text \<open>
  The calls an embedding program makes on one Server, each with what the outside world
  answers during the call. \<open>run\<close> performs them in order from a Server; None means that
  a call panicked. Dial, LocalClient and APIClient act on the Server as Start does; Accept
  and the flow entry points read it without changing it. \<open>Server.Close\<close>, after which a
  Server is not used again, is not among the calls.
\<close>

datatype call =
    CallStart startEnv
  | CallListen netlib startEnv string string
  | CallClose nat
  | CallLoopback startEnv loopbackEnv
  | CallUp startEnv upEnv

fun perform :: "call \<Rightarrow> Server \<Rightarrow> Server option" where
  "perform (CallStart env) s = (case Start env s of (r, called, s1) \<Rightarrow> Some s1)"
| "perform (CallListen lib env nw a) s = Some (snd (Listen lib env s nw a))"
| "perform (CallClose ln) s =
     (case lnClose s ln of Returns (r, s1) \<Rightarrow> Some s1 | Panics \<Rightarrow> None | Blocks \<Rightarrow> None)"
| "perform (CallLoopback senv env) s =
     (case Loopback senv env s of
        (Panics, effs, s1) \<Rightarrow> None
      | (_, effs, s1) \<Rightarrow> Some s1)"
| "perform (CallUp senv env) s = Some (snd (Up senv env s))"

fun run :: "call list \<Rightarrow> Server \<Rightarrow> Server option" where
  "run [] s = Some s"
| "run (c # cs) s = (case perform c s of None \<Rightarrow> None | Some s1 \<Rightarrow> run cs s1)"

section \<open>Reference values\<close>

text \<open>
  The release actions of \<open>start\<close> in the order in which its body registers them.
\<close>

definition registrationOrder :: "closer list" where
  "registrationOrder =
     [CloseLogbuffer, ShutdownLogtail, CloseLinkMon, CloseDialer, ShutdownLB,
      CloseLocalAPIListener]"

text \<open>
  A Server as declared with \<open>new(tsnet.Server)\<close>, and a world in which every call of
  \<open>start\<close> succeeds.
\<close>

definition zeroServer :: Server where
  "zeroServer = newServer [] None [] False [] []"

definition goodEnv :: startEnv where
  "goodEnv = \<lparr>osExecutable = Inr ''app'', userConfigDir = Inr ''/home/u/.config'',
     lstatOld = LstatNotExist, lstatNew = LstatNotExist, osRename = None, mkdirAll = None,
     statRoot = Inr True, configFromFile = ConfLoaded, configSave = None,
     configValidate = None, publicID = ''id'', filchNew = None, monitorNew = None,
     newUserspaceEngine = None, getInternals = True, netstackCreate = None, storeNew = None,
     newLocalBackend = None, nsStart = None, lbStart = None\<rparr>"

text \<open>The same world, except that \<open>lb.Start\<close> fails.\<close>

definition noNetworkEnv :: startEnv where
  "noNetworkEnv = goodEnv\<lparr>lbStart := Some (Error ''no network'')\<rparr>"

text \<open>
  A registry with a listener on \<open>("tcp4", 1.2.3.4, 80)\<close> at pointer 0 and a listener on
  \<open>("tcp", zero Addr, 80)\<close> at pointer 1.
\<close>

definition exServer :: Server where
  "exServer = zeroServer\<lparr>listeners :=
     [\<lparr>network = ''tcp4'', host = Addr4 0x01020304, port = 80\<rparr> \<mapsto> 0,
      \<lparr>network = ''tcp'', host = AddrZero, port = 80\<rparr> \<mapsto> 1]\<rparr>"

text \<open>
  What \<open>zeroServer\<close> becomes when its first Start succeeds in \<open>goodEnv\<close>, and then
  when \<open>Listen("tcp", ":80")\<close> has registered the listener at pointer 0.
\<close>

definition startedServer :: Server where
  "startedServer = zeroServer\<lparr>initOnce := True, lb := True, netstack := True, linkMon := True,
     rootPath := ''/home/u/.config/tsnet-app'', hostname := ''app'', shutdownCtx := True,
     localAPIListener := True, localClient := True, logbuffer := True, logtail := True,
     logid := ''id'', dialer := True, Store := Some OtherStore\<rparr>"

definition tcp80 :: listenKey where
  "tcp80 = \<lparr>network = ''tcp'', host = AddrZero, port = 80\<rparr>"

definition listeningServer :: Server where
  "listeningServer = startedServer\<lparr>listeners := [tcp80 \<mapsto> 0],
     heap := [0 \<mapsto> \<lparr>key = tcp80, addr = '':80'', conn_closed = False\<rparr>], nextp := 1\<rparr>"

text \<open>
  Library functions that read every address as \<open>":80"\<close>: empty host, port 80.
\<close>

definition exLib :: netlib where
  "exLib = \<lparr>SplitHostPort = (\<lambda>a. Inr ([], ''80'')), LookupPort = (\<lambda>nw service. Inr 80),
            ParseAddr = (\<lambda>h. Inl (Error ''not an IP literal''))\<rparr>"

text \<open>
  \<open>listeningServer\<close> after Close of listener 0, and then after a second
  \<open>Listen("tcp", ":80")\<close>, which registers the listener at pointer 1 under the same key.
\<close>

definition closedServer :: Server where
  "closedServer = startedServer\<lparr>listeners := Map.empty,
     heap := [0 \<mapsto> \<lparr>key = tcp80, addr = '':80'', conn_closed = True\<rparr>], nextp := 1\<rparr>"

definition relistenedServer :: Server where
  "relistenedServer = startedServer\<lparr>listeners := [tcp80 \<mapsto> 1],
     heap := [0 \<mapsto> \<lparr>key = tcp80, addr = '':80'', conn_closed = True\<rparr>,
              1 \<mapsto> \<lparr>key = tcp80, addr = '':80'', conn_closed = False\<rparr>], nextp := 2\<rparr>"

text \<open>
  \<open>startedServer\<close> after \<open>Listen("", ":80")\<close>.
\<close>

definition anyNet80 :: listenKey where
  "anyNet80 = \<lparr>network = [], host = AddrZero, port = 80\<rparr>"

definition anyNetServer :: Server where
  "anyNetServer = startedServer\<lparr>listeners := [anyNet80 \<mapsto> 0],
     heap := [0 \<mapsto> \<lparr>key = anyNet80, addr = '':80'', conn_closed = False\<rparr>], nextp := 1\<rparr>"

text \<open>
  A world in which Loopback gets its random bytes and its socket, one in which it gets
  neither, and \<open>startedServer\<close> after Loopback in the first.
\<close>

definition exLoopbackEnv :: loopbackEnv where
  "exLoopbackEnv = \<lparr>
     crandRead1 = Inr [0x00, 0x01, 0x02, 0x03, 0x04, 0x05, 0x06, 0x07,
                       0x08, 0x09, 0x0a, 0x0b, 0x0c, 0x0d, 0x0e, 0x0f],
     crandRead2 = Inr [0xf0, 0xe1, 0xd2, 0xc3, 0xb4, 0xa5, 0x96, 0x87,
                       0x78, 0x69, 0x5a, 0x4b, 0x3c, 0x2d, 0x1e, 0xff],
     netListen = Inr \<lparr>lnAddr = Some ''127.0.0.1:40000''\<rparr>\<rparr>"

definition brokenLoopbackEnv :: loopbackEnv where
  "brokenLoopbackEnv = \<lparr>crandRead1 = Inl (Error ''no entropy''),
     crandRead2 = Inl (Error ''no entropy''), netListen = Inl (Error ''address in use'')\<rparr>"

definition loopbackServer :: Server where
  "loopbackServer = startedServer\<lparr>
     proxyCred := ''000102030405060708090a0b0c0d0e0f'',
     localAPICred := ''f0e1d2c3b4a5968778695a4b3c2d1eff'',
     loopbackListener := Some \<lparr>lnAddr = Some ''127.0.0.1:40000''\<rparr>\<rparr>"

text \<open>
  Notifications and worlds for Up: the backend reaches Running with one address, reaches
  Running without address, the context is cancelled before Running, nothing follows the
  first notification.
\<close>

definition needsLogin :: Notify where
  "needsLogin = \<lparr>ErrMessage = None, State = Some NeedsLogin\<rparr>"

definition nowRunning :: Notify where
  "nowRunning = \<lparr>ErrMessage = None, State = Some Running\<rparr>"

definition oneIP :: Status where
  "oneIP = \<lparr>TailscaleIPs = [Addr4 0x64400001]\<rparr>"

definition upEnvRunning :: upEnv where
  "upEnvRunning = \<lparr>watchIPNBus = None, notifications = [Inr needsLogin, Inr nowRunning],
                    lcStatus = Inr oneIP\<rparr>"

definition upEnvNoIP :: upEnv where
  "upEnvNoIP = \<lparr>watchIPNBus = None, notifications = [Inr needsLogin, Inr nowRunning],
                 lcStatus = Inr \<lparr>TailscaleIPs = []\<rparr>\<rparr>"

definition upEnvCancelled :: upEnv where
  "upEnvCancelled = \<lparr>watchIPNBus = None,
     notifications = [Inr needsLogin, Inl (Error ''context canceled'')], lcStatus = Inr oneIP\<rparr>"

definition upEnvSilent :: upEnv where
  "upEnvSilent = \<lparr>watchIPNBus = None, notifications = [Inr needsLogin], lcStatus = Inr oneIP\<rparr>"

section \<open>Invariants\<close>

text \<open>The fields of the Server that \<open>start\<close> never writes.\<close>

definition startFrame :: "Server \<Rightarrow> Server \<Rightarrow> bool" where
  "startFrame s s' =
     (initOnce s' = initOnce s \<and> initErr s' = initErr s \<and> listeners s' = listeners s
      \<and> heap s' = heap s \<and> nextp s' = nextp s \<and> loopbackListener s' = loopbackListener s
      \<and> proxyCred s' = proxyCred s \<and> localAPICred s' = localAPICred s)"

text \<open>
  The registry and the listener objects agree: an entry of the map points to a listener
  object that carries the entry's key and whose channel is open, and every allocated
  pointer is below \<open>nextp\<close>.
\<close>

definition registryInv :: "Server \<Rightarrow> bool" where
  "registryInv s =
     ((\<forall>k ln. listeners s k = Some ln \<longrightarrow>
          (\<exists>l. heap s ln = Some l \<and> key l = k \<and> \<not> conn_closed l))
      \<and> (\<forall>ln. heap s ln \<noteq> None \<longrightarrow> ln < nextp s))"

section \<open>Properties\<close>

subsection \<open>Resolution order\<close>

lemma networkForFamily_base:
  "netBase = ''tcp'' \<or> netBase = ''udp'' \<Longrightarrow>
   networkForFamily netBase is6 = Some (netBase @ (if is6 then ''6'' else ''4''))"
  by (auto simp: networkForFamily_def)

text \<open>
  C1. For a flow of protocol base \<open>tcp\<close> or \<open>udp\<close>, \<open>listenerForDstAddr\<close> looks the
  registry up under four keys, in this order, and returns the first entry it finds:
  (family network, destination address, port), (base, destination address, port),
  (family network, zero address, port), (base, zero address, port). When none of the four
  is registered it returns \<open>(nil, false)\<close>.
\<close>

theorem listenerForDstAddr_order:
  assumes "netBase = ''tcp'' \<or> netBase = ''udp''"
  shows "listenerForDstAddr s netBase dst =
    Returns
     (let fam = netBase @ (if Is6 (ap_addr dst) then ''6'' else ''4'');
          m = listeners s; a = ap_addr dst; p = ap_port dst
      in case m \<lparr>network = fam, host = a, port = p\<rparr> of Some ln \<Rightarrow> (Some ln, True) | None \<Rightarrow>
        (case m \<lparr>network = netBase, host = a, port = p\<rparr> of Some ln \<Rightarrow> (Some ln, True) | None \<Rightarrow>
        (case m \<lparr>network = fam, host = AddrZero, port = p\<rparr> of Some ln \<Rightarrow> (Some ln, True) | None \<Rightarrow>
        (case m \<lparr>network = netBase, host = AddrZero, port = p\<rparr> of Some ln \<Rightarrow> (Some ln, True) | None \<Rightarrow>
        (None, False)))))"
  using assms
  by (auto simp: listenerForDstAddr_def networkForFamily_base Let_def split: option.splits)

theorem listenerForDstAddr_order_witness:
  "listenerForDstAddr exServer ''tcp'' (AddrPort (Addr4 0x01020304) 80) = Returns (Some 0, True)
   \<and> listenerForDstAddr
       (exServer\<lparr>listeners := (listeners exServer)
          (\<lparr>network = ''tcp4'', host = Addr4 0x01020304, port = 80\<rparr> := None)\<rparr>)
       ''tcp'' (AddrPort (Addr4 0x01020304) 80) = Returns (Some 1, True)"
  using listenerForDstAddr_order [of "''tcp''" exServer "AddrPort (Addr4 0x01020304) 80"]
    listenerForDstAddr_order [of "''tcp''"
      "exServer\<lparr>listeners := (listeners exServer)
         (\<lparr>network = ''tcp4'', host = Addr4 0x01020304, port = 80\<rparr> := None)\<rparr>"
      "AddrPort (Addr4 0x01020304) 80"]
  by (simp add: exServer_def zeroServer_def newServer_def)

subsection \<open>Flows without a listener\<close>

text \<open>
  C2, as the code has it. When the destination of a TCP or UDP flow resolves to no
  listener, the entry point returns a nil handler with \<open>intercept = true\<close>: the flow is
  intercepted and dropped ("don't handle, don't forward to localhost"), not left to the
  default policy of netstack.
\<close>

theorem flow_without_listener_dropped:
  "(listenerForDstAddr s ''tcp'' dst = Returns (None, False) \<longrightarrow>
      getTCPHandlerForFlow s src dst = Returns (None, True))
 \<and> (listenerForDstAddr s ''udp'' dst = Returns (None, False) \<longrightarrow>
      getUDPHandlerForFlow s src dst = Returns (None, True))"
  by (simp add: getTCPHandlerForFlow_def getUDPHandlerForFlow_def)

theorem flow_without_listener_dropped_witness:
  "listenerForDstAddr zeroServer ''tcp'' (AddrPort (Addr4 0x01020304) 80) = Returns (None, False)
   \<and> getTCPHandlerForFlow zeroServer (AddrPort (Addr4 0x05060708) 1234)
        (AddrPort (Addr4 0x01020304) 80) = Returns (None, True)
   \<and> listenerForDstAddr zeroServer ''udp'' (AddrPort (Addr4 0x01020304) 53) = Returns (None, False)
   \<and> getUDPHandlerForFlow zeroServer (AddrPort (Addr4 0x05060708) 1234)
        (AddrPort (Addr4 0x01020304) 53) = Returns (None, True)"
  using flow_without_listener_dropped [where s = zeroServer
      and dst = "AddrPort (Addr4 0x01020304) 80" and src = "AddrPort (Addr4 0x05060708) 1234"]
    flow_without_listener_dropped [where s = zeroServer
      and dst = "AddrPort (Addr4 0x01020304) 53" and src = "AddrPort (Addr4 0x05060708) 1234"]
  by (simp add: listenerForDstAddr_def networkForFamily_def zeroServer_def newServer_def)

text \<open>
  On a Server without listeners the TCP flow to 1.2.3.4:80 resolves to nothing, and the
  entry point does not return \<open>intercept = false\<close> as the specification has it.
\<close>

theorem flow_without_listener_counterexample:
  "listenerForDstAddr zeroServer ''tcp'' (AddrPort (Addr4 0x01020304) 80) = Returns (None, False)
   \<and> getTCPHandlerForFlow zeroServer (AddrPort (Addr4 0x05060708) 1234)
        (AddrPort (Addr4 0x01020304) 80) \<noteq> Returns (None, False)"
  by (simp add: getTCPHandlerForFlow_def listenerForDstAddr_def networkForFamily_def
      zeroServer_def newServer_def)

subsection \<open>Release actions of a failed start\<close>

lemma rangeCalls_append: "rangeCalls p called = called @ p"
  by (induction p arbitrary: called) auto

lemma closeAllIfError_eq: "closeAllIfError p errp = (if errp = None then [] else p)"
  by (simp add: closeAllIfError_def rangeCalls_append)

lemma andThen_cases:
  "andThen r f = (r', p', s') \<Longrightarrow>
     (\<exists>e. r = (Some e, p', s') \<and> r' = Some e) \<or> (\<exists>p s. r = (None, p, s) \<and> f p s = (r', p', s'))"
  by (cases r; cases "fst r") (auto simp: andThen_def)

lemma startRootPath_pool: "startRootPath env prog p s = (r, p', s') \<Longrightarrow> p' = p"
  by (auto simp: startRootPath_def split: if_splits sum.splits option.splits)

lemma startDir_pool: "startDir env p s = (r, p', s') \<Longrightarrow> p' = p"
  by (auto simp: startDir_def Let_def split: if_splits sum.splits
      dest!: andThen_cases startRootPath_pool)

lemma startLogConf_pool: "startLogConf env p s = (r, p', s') \<Longrightarrow> p' = p"
  by (auto simp: startLogConf_def Let_def split: if_splits option.splits confFile.splits)

lemma startLog_pool:
  "startLog env p s = (r, p', s') \<Longrightarrow>
     (if r = None then p' = p @ [CloseLogbuffer, ShutdownLogtail] else p' = p)"
  by (auto simp: startLog_def Let_def add_def addFunc_def split: option.splits)

lemma startLinkMon_pool:
  "startLinkMon env p s = (r, p', s') \<Longrightarrow> (if r = None then p' = p @ [CloseLinkMon] else p' = p)"
  by (cases "monitorNew env") (auto simp: startLinkMon_def add_def intro: sym)

lemma startEngine_pool:
  "startEngine env p s = (r, p', s') \<Longrightarrow>
     (if r = None then p' = p @ [CloseDialer] else p' = p \<or> p' = p @ [CloseDialer])"
  by (cases "newUserspaceEngine env")
    (auto simp: startEngine_def Let_def add_def split: if_splits intro: sym)

lemma startNetstack_pool: "startNetstack env p s = (r, p', s') \<Longrightarrow> p' = p"
  by (auto simp: startNetstack_def split: option.splits)

lemma startStore_pool: "startStore env p s = (r, p', s') \<Longrightarrow> p' = p"
  by (auto simp: startStore_def split: option.splits if_splits)

lemma startBackend_pool:
  "startBackend env p s = (r, p', s') \<Longrightarrow>
     (if r = None then p' = p @ [ShutdownLB] else p' = p \<or> p' = p @ [ShutdownLB])"
  by (auto simp: startBackend_def Let_def addFunc_def split: option.splits)

lemma startLocalAPI_pool:
  "startLocalAPI env p s = (r, p', s') \<Longrightarrow> r = None \<and> p' = p @ [CloseLocalAPIListener]"
  by (auto simp: startLocalAPI_def Let_def add_def)

text \<open>
  The pool when the body returns: everything on success, a prefix of the registration
  order without its last element on failure. One piece of the body after the other.
\<close>

lemma startBody_pool:
  assumes "startBody env s = (r, p, s')"
  shows "if r = None then p = registrationOrder else prefix p (butlast registrationOrder)"
  using assms unfolding startBody_def
  apply -
  apply (drule andThen_cases, elim disjE exE conjE)
   apply (drule startDir_pool, simp)
  apply (drule startDir_pool)
  apply (drule andThen_cases, elim disjE exE conjE)
   apply (drule startLogConf_pool, simp)
  apply (drule startLogConf_pool)
  apply (drule andThen_cases, elim disjE exE conjE)
   apply (drule startLog_pool, simp)
  apply (drule startLog_pool)
  apply (drule andThen_cases, elim disjE exE conjE)
   apply (drule startLinkMon_pool, simp add: registrationOrder_def)
  apply (drule startLinkMon_pool)
  apply (drule andThen_cases, elim disjE exE conjE)
   apply (drule startEngine_pool, auto simp add: registrationOrder_def)[1]
  apply (drule startEngine_pool)
  apply (drule andThen_cases, elim disjE exE conjE)
   apply (drule startNetstack_pool, simp add: registrationOrder_def)
  apply (drule startNetstack_pool)
  apply (drule andThen_cases, elim disjE exE conjE)
   apply (drule startStore_pool, simp add: registrationOrder_def)
  apply (drule startStore_pool)
  apply (drule andThen_cases, elim disjE exE conjE)
   apply (drule startBackend_pool, auto simp add: registrationOrder_def)[1]
  apply (drule startBackend_pool)
  apply (drule startLocalAPI_pool)
  apply (simp add: registrationOrder_def)
  done

lemmas start_defs = startBody_def startDir_def startRootPath_def getTSNetDir_def
  startLogConf_def startLog_def startLinkMon_def startEngine_def startNetstack_def
  startStore_def startBackend_def startLocalAPI_def andThen_def add_def addFunc_def
  pathJoin_def Let_def

lemma startBody_noNetworkEnv:
  "fst (startBody noNetworkEnv zeroServer) = Some (Wrap ''starting backend: '' (Error ''no network''))
   \<and> fst (snd (startBody noNetworkEnv zeroServer)) =
       [CloseLogbuffer, ShutdownLogtail, CloseLinkMon, CloseDialer, ShutdownLB]"
  by (simp add: start_defs noNetworkEnv_def goodEnv_def zeroServer_def newServer_def)

lemma start_calls_nothing: "fst (snd (start env s)) = []"
  by (simp add: start_def closeAllIfError_def split_beta)

text \<open>
  C3. The specification has every failed initialization release what the earlier steps
  acquired, the most recently registered action first. The code does not: when
  \<open>lb.Start\<close> fails, \<open>start\<close> returns the error, five release actions are in the pool
  at that moment (log spool, log shipper, link monitor, dialer, backend), and none of them
  is called, because the deferred \<open>closeAllIfError\<close> ranges over the pool as it was at
  the \<open>defer\<close> statement.
\<close>

theorem start_failure_releases_nothing:
  "fst (start noNetworkEnv zeroServer) = Some (Wrap ''starting backend: '' (Error ''no network''))
   \<and> fst (snd (startBody noNetworkEnv zeroServer)) =
       [CloseLogbuffer, ShutdownLogtail, CloseLinkMon, CloseDialer, ShutdownLB]
   \<and> fst (snd (start noNetworkEnv zeroServer)) = []"
  using startBody_noNetworkEnv
  by (simp add: start_def split_beta closeAllIfError_def)

subsection \<open>What start leaves alone\<close>
lemma startFrame_refl: "startFrame s s"
  by (simp add: startFrame_def)

lemma startFrame_trans: "startFrame s t \<Longrightarrow> startFrame t u \<Longrightarrow> startFrame s u"
  by (simp add: startFrame_def)

lemma startRootPath_frame: "startRootPath env prog p s = (r, p', s') \<Longrightarrow> startFrame s s'"
  by (auto simp: startRootPath_def startFrame_def split: if_splits sum.splits option.splits)

lemma startDir_frame: "startDir env p s = (r, p', s') \<Longrightarrow> startFrame s s'"
  by (auto simp: startDir_def Let_def startFrame_def split: if_splits sum.splits
      dest!: andThen_cases startRootPath_frame)

lemma startLogConf_frame: "startLogConf env p s = (r, p', s') \<Longrightarrow> startFrame s s'"
  by (auto simp: startLogConf_def Let_def startFrame_def split: if_splits option.splits confFile.splits)

lemma startLog_frame: "startLog env p s = (r, p', s') \<Longrightarrow> startFrame s s'"
  by (auto simp: startLog_def Let_def startFrame_def split: option.splits)

lemma startLinkMon_frame: "startLinkMon env p s = (r, p', s') \<Longrightarrow> startFrame s s'"
  by (auto simp: startLinkMon_def startFrame_def split: option.splits)

lemma startEngine_frame: "startEngine env p s = (r, p', s') \<Longrightarrow> startFrame s s'"
  by (auto simp: startEngine_def Let_def startFrame_def split: if_splits option.splits)

lemma startNetstack_frame: "startNetstack env p s = (r, p', s') \<Longrightarrow> startFrame s s'"
  by (auto simp: startNetstack_def startFrame_def split: option.splits)

lemma startStore_frame: "startStore env p s = (r, p', s') \<Longrightarrow> startFrame s s'"
  by (auto simp: startStore_def startFrame_def split: option.splits if_splits)

lemma startBackend_frame: "startBackend env p s = (r, p', s') \<Longrightarrow> startFrame s s'"
  by (auto simp: startBackend_def Let_def startFrame_def split: option.splits)

lemma startLocalAPI_frame: "startLocalAPI env p s = (r, p', s') \<Longrightarrow> startFrame s s'"
  by (auto simp: startLocalAPI_def Let_def startFrame_def)

lemma andThen_frame:
  assumes "andThen r f = (r', p', s')"
    and "\<And>e p t. r = (e, p, t) \<Longrightarrow> startFrame s t"
    and "\<And>p t. f p t = (r', p', s') \<Longrightarrow> startFrame t s'"
  shows "startFrame s s'"
  using andThen_cases [OF assms(1)] assms(2,3)
  by (blast intro: startFrame_trans)

lemma startBody_frame:
  assumes "startBody env s = (r, p, s')"
  shows "startFrame s s'"
  using assms unfolding startBody_def
  by (elim andThen_frame startDir_frame startLogConf_frame startLog_frame startLinkMon_frame
      startEngine_frame startNetstack_frame startStore_frame startBackend_frame startLocalAPI_frame)

lemma start_frame: "start env s = (r, c, s') \<Longrightarrow> startFrame s s'"
  by (auto simp: start_def split: prod.splits dest: startBody_frame)

lemma doInit_frame:
  "doInit env s = (c, s') \<Longrightarrow> startFrame s (s'\<lparr>initErr := initErr s\<rparr>)"
  by (auto simp: doInit_def Let_def startFrame_def split: prod.splits option.splits dest!: start_frame)

lemma Start_done: "initOnce s \<Longrightarrow> Start env s = (initErr s, [], s)"
  by (simp add: Start_def)

lemma Start_initOnce: "Start env s = (r, c, s') \<Longrightarrow> initOnce s' \<and> r = initErr s'"
  by (auto simp: Start_def split: if_splits prod.splits)

lemma Start_frame: "Start env s = (r, c, s') \<Longrightarrow>
    listeners s' = listeners s \<and> heap s' = heap s \<and> nextp s' = nextp s
    \<and> loopbackListener s' = loopbackListener s \<and> proxyCred s' = proxyCred s
    \<and> localAPICred s' = localAPICred s"
  by (auto simp: Start_def startFrame_def split: if_splits prod.splits dest!: doInit_frame)

lemma Start_first:
  assumes "\<not> initOnce s" "initErr s = None" "Start env s = (r, c, s')"
  shows "r = map_option (Wrap ''tsnet: '') (fst (start env (s\<lparr>shutdownCtx := True\<rparr>)))"
proof -
  obtain e c0 t where st: "start env (s\<lparr>shutdownCtx := True\<rparr>) = (e, c0, t)"
    by (cases "start env (s\<lparr>shutdownCtx := True\<rparr>)") auto
  from start_frame [OF st] assms(2) have "initErr t = None" by (simp add: startFrame_def)
  with assms st show ?thesis
    by (auto simp: Start_def doInit_def Let_def split: option.splits)
qed

subsection \<open>The registry invariant\<close>
lemma registryInv_newServer: "registryInv (newServer d st hn eph ak cu)"
  by (simp add: registryInv_def newServer_def)

lemma registryInv_cong:
  "listeners s' = listeners s \<Longrightarrow> heap s' = heap s \<Longrightarrow> nextp s' = nextp s \<Longrightarrow>
   registryInv s \<Longrightarrow> registryInv s'"
  by (simp add: registryInv_def)

lemma register_inv:
  assumes "registryInv s" "register s nw a b prt = (r, s')"
  shows "registryInv s'"
proof -
  have fresh: "heap s (nextp s) = None"
    using assms(1) by (auto simp: registryInv_def)
  have old: "\<And>k ln. listeners s k = Some ln \<Longrightarrow> ln \<noteq> nextp s"
    using assms(1) by (fastforce simp: registryInv_def)
  show ?thesis
    using assms fresh old
    by (auto simp: register_def Let_def registryInv_def less_Suc_eq
        split: option.splits if_splits)
qed

lemma register_fields:
  "register s nw a b prt = (r, s') \<Longrightarrow>
     initOnce s' = initOnce s \<and> initErr s' = initErr s \<and> loopbackListener s' = loopbackListener s
     \<and> proxyCred s' = proxyCred s \<and> localAPICred s' = localAPICred s"
  by (auto simp: register_def Let_def split: option.splits)

lemma Listen_cases:
  assumes "Listen lib env s nw a = (r, s')"
  shows "(s' = s \<and> (\<exists>e. r = Inl e))
       \<or> (\<exists>e c. Start env s = (Some e, c, s') \<and> r = Inl e)
       \<or> (\<exists>c s1 h portStr prt b. Start env s = (None, c, s1) \<and> nw \<in> set supportedNetworks
            \<and> SplitHostPort lib a = Inr (h, portStr) \<and> LookupPort lib nw portStr = Inr prt
            \<and> 0 \<le> prt \<and> prt \<le> 65535 \<and> bindHost lib nw h = Inr b
            \<and> register s1 nw a b prt = (r, s'))"
  using assms
  by (auto simp: Listen_def split: if_splits sum.splits prod.splits option.splits)

lemma Listen_inv:
  assumes "registryInv s" "Listen lib env s nw a = (r, s')"
  shows "registryInv s'"
  using Listen_cases [OF assms(2)] assms(1)
  by (auto dest!: Start_frame intro: register_inv registryInv_cong)

lemma lnClose_cases:
  assumes "lnClose s ln = Returns (r, s')"
  shows "r = None \<and> (\<exists>l. heap s ln = Some l \<and>
           (if listeners s (key l) = Some ln
            then \<not> conn_closed l \<and>
                 s' = s\<lparr>listeners := (listeners s)(key l := None),
                        heap := (heap s)(ln \<mapsto> l\<lparr>conn_closed := True\<rparr>)\<rparr>
            else s' = s))"
  using assms by (auto simp: lnClose_def split: option.splits if_splits)

lemma lnClose_inv:
  assumes "registryInv s" "lnClose s ln = Returns (r, s')"
  shows "registryInv s'"
proof -
  from lnClose_cases [OF assms(2)] obtain l where l: "heap s ln = Some l"
    and c: "if listeners s (key l) = Some ln
            then \<not> conn_closed l \<and>
                 s' = s\<lparr>listeners := (listeners s)(key l := None),
                        heap := (heap s)(ln \<mapsto> l\<lparr>conn_closed := True\<rparr>)\<rparr>
            else s' = s" by blast
  show ?thesis
  proof (cases "listeners s (key l) = Some ln")
    case True
    with c have s': "s' = s\<lparr>listeners := (listeners s)(key l := None),
                        heap := (heap s)(ln \<mapsto> l\<lparr>conn_closed := True\<rparr>)\<rparr>" by simp
    have other: "\<And>k. listeners s k = Some ln \<Longrightarrow> k = key l"
      using assms(1) l by (fastforce simp: registryInv_def)
    show ?thesis using assms(1) l other unfolding s' registryInv_def
      by (auto split: if_splits)
  next
    case False
    with c assms(1) show ?thesis by simp
  qed
qed

lemma openLoopback_fields:
  "openLoopback env s = (r, effs, s') \<Longrightarrow>
     initOnce s' = initOnce s \<and> initErr s' = initErr s \<and> listeners s' = listeners s
     \<and> heap s' = heap s \<and> nextp s' = nextp s"
  by (auto simp: openLoopback_def Let_def split: sum.splits)

lemma Loopback_fields:
  assumes "Loopback senv env s = (r, effs, s')"
  shows "listeners s' = listeners s \<and> heap s' = heap s \<and> nextp s' = nextp s \<and> initOnce s'
         \<and> (initOnce s \<longrightarrow> initErr s' = initErr s)"
proof -
  obtain e c s0 where st: "Start senv s = (e, c, s0)" by (cases "Start senv s") auto
  note f = Start_frame [OF st] Start_initOnce [OF st] Start_done [of s senv]
  show ?thesis
    using assms st f
    by (auto simp: Loopback_def split: option.splits if_splits prod.splits dest!: openLoopback_fields)
qed

lemma Up_fields:
  assumes "Up senv env s = (r, s')"
  shows "listeners s' = listeners s \<and> heap s' = heap s \<and> nextp s' = nextp s \<and> initOnce s'
         \<and> (initOnce s \<longrightarrow> initErr s' = initErr s)
         \<and> loopbackListener s' = loopbackListener s \<and> proxyCred s' = proxyCred s
         \<and> localAPICred s' = localAPICred s"
proof -
  obtain e c s0 where st: "Start senv s = (e, c, s0)" by (cases "Start senv s") auto
  note f = Start_frame [OF st] Start_initOnce [OF st] Start_done [of s senv]
  show ?thesis
    using assms st f
    by (auto simp: Up_def split: option.splits if_splits prod.splits)
qed

lemma perform_inv:
  assumes "registryInv s" "perform c s = Some s'"
  shows "registryInv s'"
proof (cases c)
  case (CallStart env)
  with assms show ?thesis
    by (auto split: prod.splits dest!: Start_frame intro: registryInv_cong)
next
  case (CallListen lib env nw a)
  with assms show ?thesis
    by (auto intro: Listen_inv [of s lib env nw a "fst (Listen lib env s nw a)"])
next
  case (CallClose ln)
  with assms show ?thesis
    by (auto split: outcome.splits intro: lnClose_inv)
next
  case (CallLoopback senv env)
  with assms show ?thesis
    by (auto split: prod.splits outcome.splits dest!: Loopback_fields intro: registryInv_cong)
next
  case (CallUp senv env)
  with assms show ?thesis
    using Up_fields [of senv env s "fst (Up senv env s)" "snd (Up senv env s)"]
    by (auto intro: registryInv_cong)
qed

lemma run_inv: "registryInv s \<Longrightarrow> run cs s = Some s' \<Longrightarrow> registryInv s'"
  by (induction cs arbitrary: s) (auto split: option.splits dest: perform_inv)

lemma perform_init:
  assumes "initOnce s" "perform c s = Some s'"
  shows "initOnce s' \<and> initErr s' = initErr s"
proof (cases c)
  case (CallStart env)
  with assms show ?thesis by (simp add: Start_done)
next
  case (CallListen lib env nw a)
  obtain r where L: "Listen lib env s nw a = (r, s')"
    using assms(2) CallListen by (cases "Listen lib env s nw a") auto
  from Listen_cases [OF L] assms(1) show ?thesis
    by (auto simp: Start_done dest!: register_fields)
next
  case (CallClose ln)
  with assms show ?thesis
    by (auto split: outcome.splits dest!: lnClose_cases split: if_splits)
next
  case (CallLoopback senv env)
  with assms show ?thesis
    by (auto split: prod.splits outcome.splits dest!: Loopback_fields)
next
  case (CallUp senv env)
  with assms show ?thesis
    using Up_fields [of senv env s "fst (Up senv env s)" "snd (Up senv env s)"] by auto
qed

lemma run_init: "initOnce s \<Longrightarrow> run cs s = Some s' \<Longrightarrow> initOnce s' \<and> initErr s' = initErr s"
proof (induction cs arbitrary: s)
  case Nil
  then show ?case by simp
next
  case (Cons c cs)
  then obtain t where t: "perform c s = Some t" "run cs t = Some s'"
    by (auto split: option.splits)
  from perform_init [OF Cons.prems(1) t(1)] Cons.IH [OF _ t(2)] show ?case by simp
qed

subsection \<open>Evaluation on the reference values\<close>

lemma startBody_goodEnv_full:
  "startBody goodEnv (zeroServer\<lparr>shutdownCtx := True\<rparr>) =
     (None, registrationOrder, startedServer\<lparr>initOnce := False\<rparr>)"
  by (simp add: start_defs goodEnv_def zeroServer_def newServer_def registrationOrder_def
      startedServer_def)

lemma startBody_noNetworkEnv_full:
  "startBody noNetworkEnv (zeroServer\<lparr>shutdownCtx := True\<rparr>) =
     (Some (Wrap ''starting backend: '' (Error ''no network'')),
      [CloseLogbuffer, ShutdownLogtail, CloseLinkMon, CloseDialer, ShutdownLB],
      startedServer\<lparr>initOnce := False, localAPIListener := False, localClient := False\<rparr>)"
  by (simp add: start_defs noNetworkEnv_def goodEnv_def zeroServer_def newServer_def
      startedServer_def)

lemma start_noNetworkEnv:
  "fst (start noNetworkEnv (zeroServer\<lparr>shutdownCtx := True\<rparr>)) =
     Some (Wrap ''starting backend: '' (Error ''no network''))"
  by (simp add: start_def startBody_noNetworkEnv_full)

lemma Start_goodEnv: "Start goodEnv zeroServer = (None, [], startedServer)"
proof -
  have a: "\<not> initOnce zeroServer" by (simp add: zeroServer_def newServer_def)
  have b: "initErr (startedServer\<lparr>initOnce := False\<rparr>) = None"
    by (simp add: startedServer_def zeroServer_def newServer_def)
  have c: "startedServer\<lparr>initOnce := False\<rparr>\<lparr>initOnce := True\<rparr> = startedServer"
    by (simp add: startedServer_def)
  show ?thesis
    using a b c
    by (simp add: Start_def doInit_def start_def startBody_goodEnv_full closeAllIfError_def)
qed

lemma Listen_example:
  "Listen exLib goodEnv zeroServer ''tcp'' '':80'' = (Inr 0, listeningServer)"
proof -
  have a: "listeners startedServer tcp80 = None" "nextp startedServer = 0"
     "heap startedServer = Map.empty" "listeners startedServer = Map.empty"
    by (simp_all add: startedServer_def zeroServer_def newServer_def)
  show ?thesis
    using a
    by (simp add: Listen_def supportedNetworks_def exLib_def bindHost_def Start_goodEnv
        register_def Let_def listeningServer_def tcp80_def)
qed

subsection \<open>Start runs the initialization once\<close>

text \<open>
  C5. On a Server whose Start has not been called, the first Start returns nil when
  \<open>start\<close> succeeds and otherwise the error of \<open>start\<close> wrapped as \<open>tsnet: ...\<close>.
  Whatever calls follow on the Server (Start, Listen, Close of a listener, Loopback, Up,
  in any number and order, with any answers from the outside world), every later Start
  returns that same result, calls no release action and leaves the Server as it is: the
  initialization body is not run again.
\<close>

theorem Start_once:
  assumes "\<not> initOnce s" "initErr s = None" "Start env s = (r, called, s1)"
  shows "r = map_option (Wrap ''tsnet: '') (fst (start env (s\<lparr>shutdownCtx := True\<rparr>)))
       \<and> (\<forall>cs s2 env2. run cs s1 = Some s2 \<longrightarrow> Start env2 s2 = (r, [], s2))"
proof -
  from Start_initOnce [OF assms(3)] have i: "initOnce s1" "r = initErr s1" by simp_all
  have "Start env2 s2 = (r, [], s2)" if "run cs s1 = Some s2" for cs s2 env2
    using run_init [OF i(1) that] i(2) by (simp add: Start_done)
  with Start_first [OF assms] show ?thesis by blast
qed

theorem Start_once_witness:
  "fst (Start noNetworkEnv zeroServer) =
     Some (Wrap ''tsnet: '' (Wrap ''starting backend: '' (Error ''no network'')))
   \<and> fst (Start goodEnv (snd (snd (Start noNetworkEnv zeroServer)))) =
     Some (Wrap ''tsnet: '' (Wrap ''starting backend: '' (Error ''no network'')))
   \<and> fst (snd (Start goodEnv (snd (snd (Start noNetworkEnv zeroServer))))) = []"
proof -
  have a: "\<not> initOnce zeroServer" "initErr zeroServer = None"
    by (simp_all add: zeroServer_def newServer_def)
  have b: "Start noNetworkEnv zeroServer =
      (fst (Start noNetworkEnv zeroServer), fst (snd (Start noNetworkEnv zeroServer)),
       snd (snd (Start noNetworkEnv zeroServer)))" by simp
  have c: "run [] (snd (snd (Start noNetworkEnv zeroServer))) =
      Some (snd (snd (Start noNetworkEnv zeroServer)))" by simp
  note once = Start_once [OF a b]
  from once have first: "fst (Start noNetworkEnv zeroServer) =
      Some (Wrap ''tsnet: '' (Wrap ''starting backend: '' (Error ''no network'')))"
    by (simp add: start_noNetworkEnv)
  from once c have "Start goodEnv (snd (snd (Start noNetworkEnv zeroServer))) =
      (fst (Start noNetworkEnv zeroServer), [], snd (snd (Start noNetworkEnv zeroServer)))"
    by blast
  with first show ?thesis by simp
qed

subsection \<open>Listen on a bound key\<close>

lemma listenerForDstAddr_cong:
  "listeners s' = listeners s \<Longrightarrow> listenerForDstAddr s' nb dst = listenerForDstAddr s nb dst"
  by (simp add: listenerForDstAddr_def cong: option.case_cong)

text \<open>
  C7. When the key that Listen computes from its arguments (network, bind address, port)
  is already in the registry, Listen returns an error and the registry is unchanged: the
  key still maps to the original listener, and every resolution gives what it gave before.
\<close>

theorem Listen_bound_key:
  assumes "SplitHostPort lib a = Inr (h, portStr)"
    and "LookupPort lib nw portStr = Inr prt"
    and "bindHost lib nw h = Inr b"
    and "listeners s \<lparr>network = nw, host = b, port = word_of_int prt\<rparr> = Some ln0"
  shows "\<exists>e s'. Listen lib env s nw a = (Inl e, s') \<and> listeners s' = listeners s
           \<and> listeners s' \<lparr>network = nw, host = b, port = word_of_int prt\<rparr> = Some ln0
           \<and> (\<forall>nb dst. listenerForDstAddr s' nb dst = listenerForDstAddr s nb dst)"
proof -
  obtain r s' where L: "Listen lib env s nw a = (r, s')"
    by (cases "Listen lib env s nw a") auto
  from Listen_cases [OF L] assms have "(\<exists>e. r = Inl e) \<and> listeners s' = listeners s"
    by (auto simp: register_def Let_def dest!: Start_frame split: option.splits)
  then obtain e where e: "r = Inl e" and same: "listeners s' = listeners s" by blast
  from same have "\<forall>nb dst. listenerForDstAddr s' nb dst = listenerForDstAddr s nb dst"
    by (blast intro: listenerForDstAddr_cong)
  with L e same assms(4) show ?thesis by simp
qed

theorem Listen_bound_key_witness:
  "\<exists>e s'. Listen exLib goodEnv listeningServer ''tcp'' '':80'' = (Inl e, s')
      \<and> listeners s' = listeners listeningServer
      \<and> listeners s' \<lparr>network = ''tcp'', host = AddrZero, port = word_of_int 80\<rparr> = Some 0
      \<and> (\<forall>nb dst. listenerForDstAddr s' nb dst = listenerForDstAddr listeningServer nb dst)"
proof -
  have a: "SplitHostPort exLib '':80'' = Inr ([], ''80'')"
    and b: "LookupPort exLib ''tcp'' ''80'' = Inr 80"
    and c: "bindHost exLib ''tcp'' [] = Inr AddrZero"
    and d: "listeners listeningServer
              \<lparr>network = ''tcp'', host = AddrZero, port = word_of_int 80\<rparr> = Some 0"
    by (simp_all add: exLib_def bindHost_def listeningServer_def tcp80_def)
  from Listen_bound_key [OF a b c d, of goodEnv] show ?thesis .
qed

subsection \<open>Closing a listener\<close>

text \<open>
  C6. In every state a program can reach, Close on a listener it holds returns nil and
  does not panic. It changes the Server only when the registry's entry for the listener's
  key is this very listener: then the channel is open, the entry is removed, the channel
  is closed (so Accept returns the closed error instead of blocking). Otherwise, that is
  after an earlier Close or when the key now belongs to another listener, nothing changes.
  A second Close right after is always without effect, and every entry that maps to
  another listener stays in the registry. The channel is thus closed at most once.
\<close>

theorem lnClose_idempotent:
  assumes "run cs (newServer d st hn eph ak cu) = Some s" and "heap s ln = Some l"
  shows "\<exists>s'. lnClose s ln = Returns (None, s')
     \<and> (if listeners s (key l) = Some ln
         then \<not> conn_closed l
              \<and> listeners s' = (listeners s)(key l := None)
              \<and> heap s' = (heap s)(ln \<mapsto> l\<lparr>conn_closed := True\<rparr>)
              \<and> Accept s' ln None =
                  Returns (Inl (Wrap ''tsnet: '' (Error ''use of closed network connection'')))
         else s' = s)
     \<and> lnClose s' ln = Returns (None, s')
     \<and> (\<forall>k q. listeners s k = Some q \<and> q \<noteq> ln \<longrightarrow> listeners s' k = Some q)"
proof -
  have inv: "registryInv s"
    using run_inv [OF registryInv_newServer assms(1)] .
  show ?thesis
  proof (cases "listeners s (key l) = Some ln")
    case True
    with inv assms(2) have open_l: "\<not> conn_closed l"
      by (fastforce simp: registryInv_def)
    define s' where "s' = s\<lparr>listeners := (listeners s)(key l := None),
                        heap := (heap s)(ln \<mapsto> l\<lparr>conn_closed := True\<rparr>)\<rparr>"
    have c1: "lnClose s ln = Returns (None, s')"
      using True assms(2) open_l by (simp add: lnClose_def s'_def)
    have c2: "lnClose s' ln = Returns (None, s')"
      by (simp add: lnClose_def s'_def)
    have c3: "Accept s' ln None =
        Returns (Inl (Wrap ''tsnet: '' (Error ''use of closed network connection'')))"
      by (simp add: Accept_def s'_def)
    have c4: "\<forall>k q. listeners s k = Some q \<and> q \<noteq> ln \<longrightarrow> listeners s' k = Some q"
      using True by (auto simp: s'_def)
    from c1 c2 c3 c4 True open_l show ?thesis
      by (simp add: s'_def)
  next
    case False
    then have "lnClose s ln = Returns (None, s)"
      using assms(2) by (auto simp: lnClose_def split: option.splits)
    with False show ?thesis by simp
  qed
qed

lemma lnClose_example: "lnClose listeningServer 0 = Returns (None, closedServer)"
  by (simp add: lnClose_def listeningServer_def closedServer_def)

lemma Start_startedServer_fields:
  "initOnce closedServer" "initErr closedServer = None"
  by (simp_all add: closedServer_def startedServer_def zeroServer_def newServer_def)

lemma Listen_again_example:
  "Listen exLib goodEnv closedServer ''tcp'' '':80'' = (Inr 1, relistenedServer)"
proof -
  have a: "Start goodEnv closedServer = (None, [], closedServer)"
    by (simp add: Start_done Start_startedServer_fields)
  have b: "listeners closedServer tcp80 = None" "nextp closedServer = 1"
    by (simp_all add: closedServer_def)
  show ?thesis
    unfolding Listen_def a
    by (simp add: supportedNetworks_def exLib_def bindHost_def
        register_def Let_def relistenedServer_def tcp80_def closedServer_def)
qed

lemma run_example:
  "run [CallListen exLib goodEnv ''tcp'' '':80'', CallClose 0,
        CallListen exLib goodEnv ''tcp'' '':80''] (newServer [] None [] False [] []) =
   Some relistenedServer"
  using Listen_example lnClose_example Listen_again_example
  by (simp add: zeroServer_def)

theorem lnClose_idempotent_witness:
  "lnClose relistenedServer 0 = Returns (None, relistenedServer)
   \<and> listeners relistenedServer tcp80 = Some 1
   \<and> (\<exists>s'. lnClose relistenedServer 1 = Returns (None, s')
         \<and> listeners s' = Map.empty \<and> lnClose s' 1 = Returns (None, s'))"
proof -
  have h0: "heap relistenedServer 0 = Some \<lparr>key = tcp80, addr = '':80'', conn_closed = True\<rparr>"
    and h1: "heap relistenedServer 1 = Some \<lparr>key = tcp80, addr = '':80'', conn_closed = False\<rparr>"
    and l: "listeners relistenedServer = [tcp80 \<mapsto> 1]"
    by (simp_all add: relistenedServer_def)
  from lnClose_idempotent [OF run_example h0] lnClose_idempotent [OF run_example h1] l
  show ?thesis by auto
qed

subsection \<open>Listeners on the empty network\<close>

lemma perform_heap_key:
  assumes "registryInv s" "heap s ln = Some l" "perform c s = Some s'"
  shows "\<exists>l'. heap s' ln = Some l' \<and> key l' = key l"
proof (cases c)
  case (CallStart env)
  with assms show ?thesis by (auto split: prod.splits dest!: Start_frame)
next
  case (CallListen lib env nw a)
  obtain r where L: "Listen lib env s nw a = (r, s')"
    using assms(3) CallListen by (cases "Listen lib env s nw a") auto
  have lt: "ln \<noteq> nextp s" using assms(1,2) by (fastforce simp: registryInv_def)
  from Listen_cases [OF L] assms(2) lt show ?thesis
    by (auto simp: register_def Let_def dest!: Start_frame split: option.splits)
next
  case (CallClose p)
  with assms show ?thesis
    by (auto split: outcome.splits if_splits dest!: lnClose_cases)
next
  case (CallLoopback senv env)
  with assms show ?thesis
    by (auto split: prod.splits outcome.splits dest!: Loopback_fields)
next
  case (CallUp senv env)
  with assms show ?thesis
    using Up_fields [of senv env s "fst (Up senv env s)" "snd (Up senv env s)"] by auto
qed

lemma run_heap_key:
  "registryInv s \<Longrightarrow> heap s ln = Some l \<Longrightarrow> run cs s = Some s' \<Longrightarrow>
     \<exists>l'. heap s' ln = Some l' \<and> key l' = key l"
proof (induction cs arbitrary: s l)
  case Nil
  then show ?case by simp
next
  case (Cons c cs)
  then obtain t where t: "perform c s = Some t" "run cs t = Some s'"
    by (auto split: option.splits)
  from perform_heap_key [OF Cons.prems(1,2) t(1)] obtain l1
    where l1: "heap t ln = Some l1" "key l1 = key l" by blast
  from Cons.IH [OF perform_inv [OF Cons.prems(1) t(1)] l1(1) t(2)] l1(2)
  show ?case by simp
qed

lemma probeNets_hit:
  "probeNets m a p ns = Some ln \<Longrightarrow> \<exists>n \<in> set ns. m \<lparr>network = n, host = a, port = p\<rparr> = Some ln"
  by (induction ns) (auto split: option.splits)

lemma probeAddrs_hit:
  "probeAddrs m ns p as = Some ln \<Longrightarrow>
     \<exists>n \<in> set ns. \<exists>a \<in> set as. m \<lparr>network = n, host = a, port = p\<rparr> = Some ln"
  by (induction as) (auto split: option.splits dest: probeNets_hit)

lemma listenerForDstAddr_hit:
  assumes "listenerForDstAddr s nb dst = Returns (Some ln, ok)"
  shows "\<exists>k. listeners s k = Some ln \<and> network k \<noteq> []"
proof -
  from assms obtain fam where fam: "networkForFamily nb (Is6 (ap_addr dst)) = Some fam"
    and hit: "probeAddrs (listeners s) [fam, nb] (ap_port dst) [ap_addr dst, AddrZero] = Some ln"
    by (auto simp: listenerForDstAddr_def split: option.splits)
  from fam have ne: "fam \<noteq> [] \<and> nb \<noteq> []"
    by (auto simp: networkForFamily_def split: if_splits)
  from probeAddrs_hit [OF hit] obtain n a where
    "n \<in> set [fam, nb]" "listeners s \<lparr>network = n, host = a, port = ap_port dst\<rparr> = Some ln"
    by blast
  with ne show ?thesis
    by (intro exI [of _ "\<lparr>network = n, host = a, port = ap_port dst\<rparr>"]) auto
qed

text \<open>
  C10. Listen accepts the empty string as network: when the address parses, the port is
  in range, Start succeeds and the key is free, it registers a new listener under the key
  whose network is empty. No resolution ever returns that listener, whatever calls the
  program makes afterwards and whatever the flow.
\<close>

theorem Listen_empty_network:
  assumes "run cs (newServer d st hn eph ak cu) = Some s"
    and "SplitHostPort lib a = Inr (h, portStr)"
    and "LookupPort lib [] portStr = Inr prt"
    and "0 \<le> prt" and "prt \<le> 65535"
    and "bindHost lib [] h = Inr b"
    and "fst (Start env s) = None"
    and "listeners s \<lparr>network = [], host = b, port = word_of_int prt\<rparr> = None"
  shows "\<exists>ln s'. Listen lib env s [] a = (Inr ln, s')
      \<and> listeners s' \<lparr>network = [], host = b, port = word_of_int prt\<rparr> = Some ln
      \<and> (\<forall>cs' t nb dst r. run cs' s' = Some t \<and> listenerForDstAddr t nb dst = Returns r
            \<longrightarrow> fst r \<noteq> Some ln)"
proof -
  define k where "k = \<lparr>network = [], host = b, port = word_of_int prt :: 16 word\<rparr>"
  have inv: "registryInv s"
    using run_inv [OF registryInv_newServer assms(1)] .
  obtain c s1 where st: "Start env s = (None, c, s1)"
    using assms(7) by (cases "Start env s") auto
  note f = Start_frame [OF st]
  define s' where "s' = s1\<lparr>heap := (heap s1)(nextp s1 \<mapsto> \<lparr>key = k, addr = a, conn_closed = False\<rparr>),
                         nextp := Suc (nextp s1),
                         listeners := (listeners s1)(k \<mapsto> nextp s1)\<rparr>"
  have reg: "register s1 [] a b prt = (Inr (nextp s1), s')"
    using assms(8) f by (simp add: register_def Let_def k_def s'_def)
  have L: "Listen lib env s [] a = (Inr (nextp s1), s')"
    using assms(2-6) st reg by (simp add: Listen_def supportedNetworks_def)
  have inv': "registryInv s'"
    using Listen_inv [OF inv L] .
  have hp: "heap s' (nextp s1) = Some \<lparr>key = k, addr = a, conn_closed = False\<rparr>"
    by (simp add: s'_def)
  have never: "fst r \<noteq> Some (nextp s1)"
    if t: "run cs' s' = Some t" and res: "listenerForDstAddr t nb dst = Returns r"
    for cs' t nb dst r
  proof
    assume "fst r = Some (nextp s1)"
    then have "listenerForDstAddr t nb dst = Returns (Some (nextp s1), snd r)"
      using res by (cases r) simp
    from listenerForDstAddr_hit [OF this] obtain k' where
      k': "listeners t k' = Some (nextp s1)" "network k' \<noteq> []" by blast
    from run_heap_key [OF inv' hp t] obtain l' where
      l': "heap t (nextp s1) = Some l'" "key l' = k" by auto
    from run_inv [OF inv' t] k'(1) l'(1) have "key l' = k'"
      by (fastforce simp: registryInv_def)
    with l'(2) k'(2) show False by (simp add: k_def)
  qed
  have "listeners s' k = Some (nextp s1)" by (simp add: s'_def)
  with L never show ?thesis unfolding k_def by blast
qed

lemma Listen_anyNet_example:
  "Listen exLib goodEnv zeroServer [] '':80'' = (Inr 0, anyNetServer)"
proof -
  have a: "listeners startedServer anyNet80 = None" "nextp startedServer = 0"
     "heap startedServer = Map.empty" "listeners startedServer = Map.empty"
    by (simp_all add: startedServer_def zeroServer_def newServer_def)
  show ?thesis
    unfolding Listen_def Start_goodEnv
    using a
    by (simp add: supportedNetworks_def exLib_def bindHost_def
        register_def Let_def anyNetServer_def anyNet80_def)
qed

theorem Listen_empty_network_witness:
  "Listen exLib goodEnv zeroServer [] '':80'' = (Inr 0, anyNetServer)
   \<and> listeners anyNetServer \<lparr>network = [], host = AddrZero, port = 80\<rparr> = Some 0
   \<and> listenerForDstAddr anyNetServer ''tcp'' (AddrPort (Addr4 0x01020304) 80) = Returns (None, False)"
proof -
  have r: "run [] (newServer [] None [] False [] []) = Some zeroServer"
    by (simp add: zeroServer_def)
  have a: "SplitHostPort exLib '':80'' = Inr ([], ''80'')"
    and b: "LookupPort exLib [] ''80'' = Inr 80"
    and c: "bindHost exLib [] [] = Inr AddrZero"
    and e: "listeners zeroServer \<lparr>network = [], host = AddrZero, port = word_of_int 80\<rparr> = None"
    by (simp_all add: exLib_def bindHost_def zeroServer_def newServer_def)
  have d: "fst (Start goodEnv zeroServer) = None"
    by (simp add: Start_goodEnv)
  have t: "run [] anyNetServer = Some anyNetServer" by simp
  have res: "listenerForDstAddr anyNetServer ''tcp'' (AddrPort (Addr4 0x01020304) 80) = Returns (None, False)"
    by (simp add: listenerForDstAddr_def networkForFamily_def anyNetServer_def anyNet80_def)
  from Listen_empty_network [OF r a b _ _ c d e] Listen_anyNet_example res
  show ?thesis by (simp add: anyNetServer_def anyNet80_def)
qed

subsection \<open>Up\<close>

lemma watchLoop_pending:
  "list_all pending pre \<Longrightarrow> watchLoop st (pre @ ns) = watchLoop st ns"
proof (induction pre)
  case Nil
  then show ?case by simp
next
  case (Cons x pre)
  then show ?case by (cases x) auto
qed

lemma watchLoop_blocks: "list_all pending ns \<Longrightarrow> watchLoop st ns = Blocks"
  using watchLoop_pending [of ns st "[]"] by simp

lemma watchLoop_status:
  "watchLoop st ns = Returns (Inr status) \<Longrightarrow>
     \<exists>pre n post. ns = pre @ Inr n # post \<and> list_all pending pre
        \<and> ErrMessage n = None \<and> State n = Some Running
        \<and> st = Inr status \<and> TailscaleIPs status \<noteq> []"
proof (induction st ns rule: watchLoop.induct)
  case (1 st)
  then show ?case by simp
next
  case (2 st err ns)
  then show ?case by simp
next
  case (3 st n ns)
  show ?case
  proof (cases "ErrMessage n = None \<and> State n \<noteq> Some Running")
    case True
    with 3 obtain pre m post where
      "ns = pre @ Inr m # post" "list_all pending pre" "ErrMessage m = None"
      "State m = Some Running" "st = Inr status" "TailscaleIPs status \<noteq> []"
      by auto
    with True show ?thesis
      by (intro exI [of _ "Inr n # pre"] exI [of _ m] exI [of _ post]) simp
  next
    case False
    with "3.prems" have "ErrMessage n = None \<and> State n = Some Running
        \<and> st = Inr status \<and> TailscaleIPs status \<noteq> []"
      by (auto split: option.splits sum.splits if_splits)
    then show ?thesis
      by (intro exI [of _ "[]"] exI [of _ n] exI [of _ ns]) simp
  qed
qed

lemma Up_ready:
  assumes "fst (Start senv s) = None" "watchIPNBus env = None"
  shows "fst (Up senv env s) = watchLoop (lcStatus env) (notifications env)"
  using assms by (cases "Start senv s") (auto simp: Up_def)

lemma Up_status:
  assumes "fst (Up senv env s) = Returns (Inr status)"
  shows "fst (Start senv s) = None \<and> watchIPNBus env = None
       \<and> watchLoop (lcStatus env) (notifications env) = Returns (Inr status)"
  using assms by (cases "Start senv s") (auto simp: Up_def split: option.splits)

text \<open>
  C8. A notification is pending when it carries no error message and no Running state;
  Up reads past pending notifications. Up returns a status only when, after pending
  notifications, one without error message reports Running and the status has at least one
  address. When Start and the subscription succeed, the first notification that is not
  pending decides: an error of \<open>Next\<close> (the context was cancelled) or an error message
  of the backend makes Up return an error; Running makes it return the error of
  \<open>lc.Status\<close>, the error "running, but no ip" when the status has no address, and the
  status otherwise. While all notifications are pending, Up blocks.
\<close>

theorem Up_contract:
  "(fst (Up senv env s) = Returns (Inr status) \<longrightarrow>
      (\<exists>pre n post. notifications env = pre @ Inr n # post \<and> list_all pending pre
          \<and> ErrMessage n = None \<and> State n = Some Running
          \<and> lcStatus env = Inr status \<and> TailscaleIPs status \<noteq> []))
   \<and> (fst (Start senv s) = None \<and> watchIPNBus env = None
        \<and> notifications env = pre @ x # post \<and> list_all pending pre \<longrightarrow>
        (case x of
           Inl err \<Rightarrow> fst (Up senv env s) = Returns (Inl (Wrap ''tsnet.Up: '' err))
         | Inr n \<Rightarrow>
            (case ErrMessage n of
               Some m \<Rightarrow> fst (Up senv env s) = Returns (Inl (Error (''tsnet.Up: backend: '' @ m)))
             | None \<Rightarrow>
                 State n = Some Running \<longrightarrow>
                 (case lcStatus env of
                    Inl err \<Rightarrow> fst (Up senv env s) = Returns (Inl (Wrap ''tsnet.Up: '' err))
                  | Inr st \<Rightarrow>
                      if TailscaleIPs st = []
                      then fst (Up senv env s) = Returns (Inl (Error ''tsnet.Up: running, but no ip''))
                      else fst (Up senv env s) = Returns (Inr st)))))
   \<and> (fst (Start senv s) = None \<and> watchIPNBus env = None
        \<and> list_all pending (notifications env) \<longrightarrow> fst (Up senv env s) = Blocks)"
proof (intro conjI impI)
  assume "fst (Up senv env s) = Returns (Inr status)"
  from watchLoop_status [of "lcStatus env" "notifications env" status] Up_status [OF this]
  show "\<exists>pre n post. notifications env = pre @ Inr n # post \<and> list_all pending pre
          \<and> ErrMessage n = None \<and> State n = Some Running
          \<and> lcStatus env = Inr status \<and> TailscaleIPs status \<noteq> []"
    by blast
next
  assume a: "fst (Start senv s) = None \<and> watchIPNBus env = None
        \<and> notifications env = pre @ x # post \<and> list_all pending pre"
  then have "fst (Up senv env s) = watchLoop (lcStatus env) (x # post)"
    by (simp add: Up_ready watchLoop_pending)
  then show "case x of
           Inl err \<Rightarrow> fst (Up senv env s) = Returns (Inl (Wrap ''tsnet.Up: '' err))
         | Inr n \<Rightarrow>
            (case ErrMessage n of
               Some m \<Rightarrow> fst (Up senv env s) = Returns (Inl (Error (''tsnet.Up: backend: '' @ m)))
             | None \<Rightarrow>
                 State n = Some Running \<longrightarrow>
                 (case lcStatus env of
                    Inl err \<Rightarrow> fst (Up senv env s) = Returns (Inl (Wrap ''tsnet.Up: '' err))
                  | Inr st \<Rightarrow>
                      if TailscaleIPs st = []
                      then fst (Up senv env s) = Returns (Inl (Error ''tsnet.Up: running, but no ip''))
                      else fst (Up senv env s) = Returns (Inr st)))"
    by (auto split: sum.splits option.splits)
next
  assume "fst (Start senv s) = None \<and> watchIPNBus env = None
        \<and> list_all pending (notifications env)"
  then show "fst (Up senv env s) = Blocks"
    by (simp add: Up_ready watchLoop_blocks)
qed

subsection \<open>Loopback\<close>

lemma length_EncodeToString: "length (EncodeToString src) = 2 * length src"
  by (induction src) (simp_all add: EncodeToString_def)

lemma length_array16: "length (array16 bs) = 16"
  by (simp add: array16_def)

lemma hextable_nth: "i < 16 \<Longrightarrow> hextable ! i \<in> set hextable"
  by (rule nth_mem) (simp add: hextable_def)

lemma set_EncodeToString: "set (EncodeToString src) \<subseteq> set hextable"
proof -
  have "unat v div 16 < 16" for v :: "8 word"
    using unsigned_less [of v, where 'a = nat] by simp
  then show ?thesis
    by (auto simp: EncodeToString_def intro!: hextable_nth)
qed

lemma openLoopback_success:
  assumes "openLoopback env s = (None, effs, s')"
  shows "\<exists>b1 b2 ln. crandRead1 env = Inr b1 \<and> crandRead2 env = Inr b2 \<and> netListen env = Inr ln
     \<and> effs = [CrandRead, CrandRead, NetListen, GoServeLocalAPI, GoServeSOCKS5]
     \<and> s' = s\<lparr>proxyCred := EncodeToString (array16 b1),
              localAPICred := EncodeToString (array16 b2),
              loopbackListener := Some ln\<rparr>"
  using assms by (auto simp: openLoopback_def Let_def split: sum.splits)

lemma Loopback_success:
  assumes "Loopback senv env s = (Returns (Inr (a, pc, lc)), effs, s1)"
  shows "initOnce s1 \<and> initErr s1 = None
       \<and> (\<exists>ln. loopbackListener s1 = Some ln \<and> lnAddr ln = Some a)
       \<and> proxyCred s1 = pc \<and> localAPICred s1 = lc
       \<and> (if loopbackListener s = None
           then effs = [CrandRead, CrandRead, NetListen, GoServeLocalAPI, GoServeSOCKS5]
              \<and> (\<exists>b1 b2. crandRead1 env = Inr b1 \<and> crandRead2 env = Inr b2
                    \<and> pc = EncodeToString (array16 b1) \<and> lc = EncodeToString (array16 b2))
           else effs = [])"
proof -
  obtain e c s0 where st: "Start senv s = (e, c, s0)" by (cases "Start senv s") auto
  note f = Start_frame [OF st] Start_initOnce [OF st]
  from assms st have e: "e = None"
    by (auto simp: Loopback_def split: option.splits)
  show ?thesis
  proof (cases "loopbackListener s0 = None")
    case True
    obtain r effs' s1' where o: "openLoopback env s0 = (r, effs', s1')"
      by (cases "openLoopback env s0") auto
    from assms st e True o have res: "r = None" "effs' = effs" "s1' = s1"
      "\<exists>ln. loopbackListener s1 = Some ln \<and> lnAddr ln = Some a"
      "proxyCred s1 = pc" "localAPICred s1 = lc"
      by (auto simp: Loopback_def split: option.splits)
    from openLoopback_success [of env s0 effs s1] o res obtain b1 b2 ln where
      b: "crandRead1 env = Inr b1" "crandRead2 env = Inr b2"
         "effs = [CrandRead, CrandRead, NetListen, GoServeLocalAPI, GoServeSOCKS5]"
         "s1 = s0\<lparr>proxyCred := EncodeToString (array16 b1),
                   localAPICred := EncodeToString (array16 b2),
                   loopbackListener := Some ln\<rparr>"
      by auto
    have i: "initOnce s1" "initErr s1 = None"
      using f e b(4) by auto
    have c: "pc = EncodeToString (array16 b1)" "lc = EncodeToString (array16 b2)"
      using res(5,6) b(4) by auto
    from True f have "loopbackListener s = None" by simp
    with i c b(1-3) res(4-6) show ?thesis by auto
  next
    case False
    with assms st f e show ?thesis
      by (auto simp: Loopback_def split: option.splits)
  qed
qed

lemma Loopback_again:
  assumes "initOnce s" "initErr s = None" "loopbackListener s = Some ln" "lnAddr ln = Some a"
  shows "Loopback senv env s = (Returns (Inr (a, proxyCred s, localAPICred s)), [], s)"
  using assms by (simp add: Loopback_def Start_done)

lemma perform_loopback:
  assumes "loopbackListener s = Some ln" "perform c s = Some s'"
  shows "loopbackListener s' = Some ln \<and> proxyCred s' = proxyCred s \<and> localAPICred s' = localAPICred s"
proof (cases c)
  case (CallStart env)
  with assms show ?thesis by (auto split: prod.splits dest!: Start_frame)
next
  case (CallListen lib env nw a)
  obtain r where L: "Listen lib env s nw a = (r, s')"
    using assms(2) CallListen by (cases "Listen lib env s nw a") auto
  from Listen_cases [OF L] assms(1) show ?thesis
    by (auto dest!: register_fields Start_frame)
next
  case (CallClose p)
  with assms show ?thesis
    by (auto split: outcome.splits if_splits dest!: lnClose_cases)
next
  case (CallLoopback senv env)
  obtain e c0 s0 where st: "Start senv s = (e, c0, s0)" by (cases "Start senv s") auto
  from assms CallLoopback st Start_frame [OF st] show ?thesis
    by (auto simp: Loopback_def split: option.splits prod.splits outcome.splits if_splits)
next
  case (CallUp senv env)
  with assms show ?thesis
    using Up_fields [of senv env s "fst (Up senv env s)" "snd (Up senv env s)"] by auto
qed

lemma run_loopback:
  "loopbackListener s = Some ln \<Longrightarrow> run cs s = Some s' \<Longrightarrow>
     loopbackListener s' = Some ln \<and> proxyCred s' = proxyCred s \<and> localAPICred s' = localAPICred s"
proof (induction cs arbitrary: s)
  case Nil
  then show ?case by simp
next
  case (Cons c cs)
  then obtain t where t: "perform c s = Some t" "run cs t = Some s'"
    by (auto split: option.splits)
  from perform_loopback [OF Cons.prems(1) t(1)] Cons.IH [OF _ t(2)] show ?case by simp
qed

text \<open>
  C9. After a Loopback call that returned an address and two credentials, every later
  Loopback call on the Server, after any calls in between and whatever the outside world
  answers, returns the same address and the same credentials, does nothing outside the
  Server (no random read, no socket) and leaves the Server as it is. When the call is the
  one that opens the listener, it reads random bytes twice, opens one socket and starts the
  two servers; the proxy credential is the hex encoding of the first 16 bytes read, the
  LocalAPI credential that of the second 16 bytes, each 32 hexadecimal digits long.
\<close>

theorem Loopback_idempotent:
  assumes "Loopback senv env s = (Returns (Inr (a, pc, lc)), effs, s1)"
  shows "(\<forall>cs s2 senv2 env2. run cs s1 = Some s2 \<longrightarrow>
            Loopback senv2 env2 s2 = (Returns (Inr (a, pc, lc)), [], s2))
       \<and> (loopbackListener s = None \<longrightarrow>
            effs = [CrandRead, CrandRead, NetListen, GoServeLocalAPI, GoServeSOCKS5]
            \<and> (\<exists>b1 b2. crandRead1 env = Inr b1 \<and> crandRead2 env = Inr b2
                  \<and> pc = EncodeToString (array16 b1) \<and> lc = EncodeToString (array16 b2))
            \<and> length pc = 32 \<and> length lc = 32
            \<and> set pc \<subseteq> set hextable \<and> set lc \<subseteq> set hextable)"
proof -
  note S = Loopback_success [OF assms]
  from S obtain ln where ln: "loopbackListener s1 = Some ln" "lnAddr ln = Some a" by blast
  have again: "Loopback senv2 env2 s2 = (Returns (Inr (a, pc, lc)), [], s2)"
    if r: "run cs s1 = Some s2" for cs s2 senv2 env2
  proof -
    from S have i: "initOnce s1" by simp
    from run_init [OF i r] S have "initOnce s2" "initErr s2 = None" by simp_all
    moreover from run_loopback [OF ln(1) r] S
    have "loopbackListener s2 = Some ln" "proxyCred s2 = pc" "localAPICred s2 = lc" by simp_all
    ultimately show ?thesis using Loopback_again [of s2 ln a senv2 env2] ln(2) by simp
  qed
  have first: "effs = [CrandRead, CrandRead, NetListen, GoServeLocalAPI, GoServeSOCKS5]
            \<and> (\<exists>b1 b2. crandRead1 env = Inr b1 \<and> crandRead2 env = Inr b2
                  \<and> pc = EncodeToString (array16 b1) \<and> lc = EncodeToString (array16 b2))
            \<and> length pc = 32 \<and> length lc = 32
            \<and> set pc \<subseteq> set hextable \<and> set lc \<subseteq> set hextable"
    if "loopbackListener s = None"
    using S that by (auto simp: length_EncodeToString length_array16 dest: subsetD [OF set_EncodeToString])
  from again first show ?thesis by blast
qed

lemma EncodeToString_example1:
  "EncodeToString (array16 [0x00, 0x01, 0x02, 0x03, 0x04, 0x05, 0x06, 0x07,
                       0x08, 0x09, 0x0a, 0x0b, 0x0c, 0x0d, 0x0e, 0x0f]) = ''000102030405060708090a0b0c0d0e0f''"
  by (simp add: EncodeToString_def array16_def hextable_def)

lemma EncodeToString_example2:
  "EncodeToString (array16 [0xf0, 0xe1, 0xd2, 0xc3, 0xb4, 0xa5, 0x96, 0x87,
                       0x78, 0x69, 0x5a, 0x4b, 0x3c, 0x2d, 0x1e, 0xff]) = ''f0e1d2c3b4a5968778695a4b3c2d1eff''"
  by (simp add: EncodeToString_def array16_def hextable_def)

lemma startedServer_fields:
  "initOnce startedServer" "initErr startedServer = None" "loopbackListener startedServer = None"
  by (simp_all add: startedServer_def zeroServer_def newServer_def)

lemma openLoopback_example:
  "openLoopback exLoopbackEnv startedServer =
     (None, [CrandRead, CrandRead, NetListen, GoServeLocalAPI, GoServeSOCKS5], loopbackServer)"
  by (simp add: openLoopback_def exLoopbackEnv_def Let_def EncodeToString_example1
      EncodeToString_example2 loopbackServer_def)

lemma Loopback_example:
  "Loopback goodEnv exLoopbackEnv startedServer =
     (Returns (Inr (''127.0.0.1:40000'', ''000102030405060708090a0b0c0d0e0f'',
                    ''f0e1d2c3b4a5968778695a4b3c2d1eff'')),
      [CrandRead, CrandRead, NetListen, GoServeLocalAPI, GoServeSOCKS5], loopbackServer)"
proof -
  have a: "Start goodEnv startedServer = (None, [], startedServer)"
    by (simp add: Start_done startedServer_fields)
  have b: "loopbackListener loopbackServer = Some \<lparr>lnAddr = Some ''127.0.0.1:40000''\<rparr>"
    "proxyCred loopbackServer = ''000102030405060708090a0b0c0d0e0f''"
    "localAPICred loopbackServer = ''f0e1d2c3b4a5968778695a4b3c2d1eff''"
    by (simp_all add: loopbackServer_def)
  show ?thesis
    unfolding Loopback_def a
    by (simp add: startedServer_fields openLoopback_example b)
qed

theorem Loopback_idempotent_witness:
  "Loopback goodEnv exLoopbackEnv startedServer =
     (Returns (Inr (''127.0.0.1:40000'', ''000102030405060708090a0b0c0d0e0f'',
                    ''f0e1d2c3b4a5968778695a4b3c2d1eff'')),
      [CrandRead, CrandRead, NetListen, GoServeLocalAPI, GoServeSOCKS5], loopbackServer)
   \<and> Loopback noNetworkEnv brokenLoopbackEnv loopbackServer =
     (Returns (Inr (''127.0.0.1:40000'', ''000102030405060708090a0b0c0d0e0f'',
                    ''f0e1d2c3b4a5968778695a4b3c2d1eff'')), [], loopbackServer)
   \<and> length ''000102030405060708090a0b0c0d0e0f'' = 32"
proof -
  have r: "run [] loopbackServer = Some loopbackServer" by simp
  note once = Loopback_idempotent [OF Loopback_example]
  from once r have "Loopback noNetworkEnv brokenLoopbackEnv loopbackServer =
     (Returns (Inr (''127.0.0.1:40000'', ''000102030405060708090a0b0c0d0e0f'',
                    ''f0e1d2c3b4a5968778695a4b3c2d1eff'')), [], loopbackServer)"
    by blast
  moreover from once startedServer_fields(3)
  have "length ''000102030405060708090a0b0c0d0e0f'' = 32" by blast
  ultimately show ?thesis using Loopback_example by simp
qed

theorem Up_contract_witness:
  "fst (Up goodEnv upEnvRunning startedServer) = Returns (Inr oneIP)
   \<and> fst (Up goodEnv upEnvNoIP startedServer) = Returns (Inl (Error ''tsnet.Up: running, but no ip''))
   \<and> fst (Up goodEnv upEnvCancelled startedServer) =
       Returns (Inl (Wrap ''tsnet.Up: '' (Error ''context canceled'')))
   \<and> fst (Up goodEnv upEnvSilent startedServer) = Blocks"
proof -
  have a: "fst (Start goodEnv startedServer) = None"
    by (simp add: Start_done startedServer_fields)
  have p: "list_all pending [Inr needsLogin]"
    by (simp add: needsLogin_def)
  have 1: "fst (Up goodEnv upEnvRunning startedServer) = Returns (Inr oneIP)"
    using Up_contract [where senv = goodEnv and env = upEnvRunning and s = startedServer
        and pre = "[Inr needsLogin]" and x = "Inr nowRunning" and post = "[]"] a p
    by (simp add: upEnvRunning_def nowRunning_def oneIP_def)
  have 2: "fst (Up goodEnv upEnvNoIP startedServer) =
      Returns (Inl (Error ''tsnet.Up: running, but no ip''))"
    using Up_contract [where senv = goodEnv and env = upEnvNoIP and s = startedServer
        and pre = "[Inr needsLogin]" and x = "Inr nowRunning" and post = "[]"] a p
    by (simp add: upEnvNoIP_def nowRunning_def)
  have 3: "fst (Up goodEnv upEnvCancelled startedServer) =
      Returns (Inl (Wrap ''tsnet.Up: '' (Error ''context canceled'')))"
    using Up_contract [where senv = goodEnv and env = upEnvCancelled and s = startedServer
        and pre = "[Inr needsLogin]" and x = "Inl (Error ''context canceled'')" and post = "[]"] a p
    by (simp add: upEnvCancelled_def)
  have 4: "fst (Up goodEnv upEnvSilent startedServer) = Blocks"
    using Up_contract [where senv = goodEnv and env = upEnvSilent and s = startedServer] a p
    by (simp add: upEnvSilent_def)
  from 1 2 3 4 show ?thesis by simp
qed

subsection \<open>The handoff to a listener\<close>








end
